theory Spec2Isabelle
  imports Complex_Main "HOL-Library.Word"
begin

section \<open>Audio engine constants\<close>

text \<open>
  The engine computes in floating point. The definitions of this development compute in
  the reals: they are the engine in exact arithmetic, without rounding, overflow or
  NaN, and every exception that the arithmetic of the source can raise on real-valued
  input (a float division by zero) is a branch of them. The two smoothing steps of the
  gate are given a second time as the code computes them, with every operation rounded
  (\<open>gain_step_f64\<close>, \<open>env_step_f64\<close>, \<open>env_step_f32\<close>), to show where exact
  arithmetic and the code part.
\<close>

definition APP_SR :: real where
  "APP_SR = 48000"

definition BLOCK :: nat where
  "BLOCK = 1024"

definition db_to_gain :: "real \<Rightarrow> real" where
  "db_to_gain db = 10 powr (db / 20)"

datatype py_error = ZeroDivisionError | IndexError | ValueError | PortAudioError

section \<open>Biquad (RBJ peaking) section\<close>

record biquad =
  b0 :: real
  b1 :: real
  b2 :: real
  a1 :: real
  a2 :: real
  z1 :: real
  z2 :: real

definition Biquad_init :: biquad where
  "Biquad_init = \<lparr>b0 = 1, b1 = 0, b2 = 0, a1 = 0, a2 = 0, z1 = 0, z2 = 0\<rparr>"

text \<open>
  \<open>set_peaking_eq\<close>: the five assignments to the fields come after every division of
  the method, so an exception leaves the filter as it was.
\<close>

definition set_peaking_eq :: "real \<Rightarrow> real \<Rightarrow> real \<Rightarrow> real \<Rightarrow> biquad \<Rightarrow> py_error + biquad" where
  "set_peaking_eq fs f0 Q gain_db bq =
     (let A = 10 powr (gain_db / 40) in
      if fs = 0 then Inl ZeroDivisionError
      else let w0 = 2 * pi * f0 / fs in
      if 2 * Q = 0 then Inl ZeroDivisionError
      else let alpha = sin w0 / (2 * Q);
               cosw = cos w0;
               nb0 = 1 + alpha * A;
               nb1 = - 2 * cosw;
               nb2 = 1 - alpha * A in
      if A = 0 then Inl ZeroDivisionError
      else let a0 = 1 + alpha / A;
               na1 = - 2 * cosw;
               na2 = 1 - alpha / A in
      if a0 = 0 then Inl ZeroDivisionError
      else Inr (bq\<lparr>b0 := nb0 / a0, b1 := nb1 / a0, b2 := nb2 / a0,
                    a1 := na1 / a0, a2 := na2 / a0\<rparr>))"

text \<open>
  The loop of \<open>process_inplace\<close> over the samples, on the local copies of the
  coefficients and of the two state values; it returns the rewritten block and the
  final state values.
\<close>

fun biquad_loop :: "biquad \<Rightarrow> real \<Rightarrow> real \<Rightarrow> real list \<Rightarrow> real list \<times> real \<times> real" where
  "biquad_loop c s1 s2 [] = ([], s1, s2)"
| "biquad_loop c s1 s2 (x # xs) =
     (let w = x - a1 c * s1 - a2 c * s2;
          y = b0 c * w + b1 c * s1 + b2 c * s2;
          (ys, t1, t2) = biquad_loop c w s1 xs
      in (y # ys, t1, t2))"

definition process_inplace :: "biquad \<Rightarrow> real list \<Rightarrow> biquad \<times> real list" where
  "process_inplace bq xs =
     (let (ys, t1, t2) = biquad_loop bq (z1 bq) (z2 bq) xs
      in (bq\<lparr>z1 := t1, z2 := t2\<rparr>, ys))"

text \<open>The chain of the callback: \<open>for biq in self.eq_filters: biq.process_inplace(buf)\<close>.\<close>

fun filter_bank :: "biquad list \<Rightarrow> real list \<Rightarrow> biquad list \<times> real list" where
  "filter_bank [] xs = ([], xs)"
| "filter_bank (bq # bqs) xs =
     (let (bq', ys) = process_inplace bq xs;
          (bqs', zs) = filter_bank bqs ys
      in (bq' # bqs', zs))"

section \<open>Stream items and the decode producer\<close>

text \<open>
  What travels through the queue: a frame of raw bytes, \<open>None\<close> (end of stream), or the
  tuple \<open>("__ERROR__", message)\<close> that the reader puts when the decoder cannot be started.
\<close>

datatype item = Frame "8 word list" | EndOfStream | ErrorItem string

text \<open>
  The inner loop of \<open>FFmpegPCMReader.run\<close>:
  \<open>while len(leftover) >= BLOCK * 4: frame = leftover[:BLOCK * 4]; leftover = leftover[BLOCK * 4:]; put(frame)\<close>.
  It returns the frames put and what is left over.
\<close>

function split_frames :: "8 word list \<Rightarrow> 8 word list list \<times> 8 word list" where
  "split_frames leftover =
     (if length leftover \<ge> BLOCK * 4
      then (let (frames, rest) = split_frames (drop (BLOCK * 4) leftover)
            in (take (BLOCK * 4) leftover # frames, rest))
      else ([], leftover))"
  by pat_completeness auto
termination
  by (relation "measure length") (auto simp: BLOCK_def)

declare split_frames.simps [simp del]

text \<open>
  What one turn of the outer loop observes: the stop event is set, the pause flag is set,
  the read returns a chunk (the empty chunk is the end of the file), or the read raises.
\<close>

datatype reader_event = StopSet | Paused | Read "8 word list" | ReadRaises

text \<open>
  The outer loop, over the observations of its turns, with the bytes left over so far.
  It returns the items put into the queue, in order. The \<open>finally\<close> clause puts \<open>None\<close>
  however the loop ends; a trace that ends while the loop is still running gives the
  items put so far.
\<close>

fun reader_loop :: "8 word list \<Rightarrow> reader_event list \<Rightarrow> item list" where
  "reader_loop leftover [] = []"
| "reader_loop leftover (StopSet # evs) = [EndOfStream]"
| "reader_loop leftover (Paused # evs) = reader_loop leftover evs"
| "reader_loop leftover (ReadRaises # evs) = [EndOfStream]"
| "reader_loop leftover (Read chunk # evs) =
     (if chunk = [] then [EndOfStream]
      else (let (frames, rest) = split_frames (leftover @ chunk)
            in map Frame frames @ reader_loop rest evs))"

text \<open>
  \<open>run\<close>: when the decoder process cannot be started, the error tuple is put and the
  method returns (before the \<open>try\<close> whose \<open>finally\<close> puts \<open>None\<close>).
\<close>

definition run :: "string option \<Rightarrow> reader_event list \<Rightarrow> item list" where
  "run popen_error evs =
     (case popen_error of
        Some msg \<Rightarrow> [ErrorItem msg]
      | None \<Rightarrow> reader_loop [] evs)"

section \<open>The audio engine\<close>

record band =
  band_freq :: real
  band_Q :: real
  band_gain :: real

datatype output_stream = OutputStream (running: bool)

record engine =
  q :: "item list"
  stream :: "output_stream option"
  stop_event :: bool
  paused_flag :: bool
  master_gain :: real
  eq_points :: "band list"
  eq_filters :: "biquad list"
  gate_enabled :: bool
  gate_mode :: string
  open_thr_db :: real
  close_thr_db :: real
  floor_db :: real
  expander_ratio :: real
  attack_open_ms :: real
  release_close_ms :: real
  env :: real
  current_gain :: real
  attack_open :: real
  release_close :: real

text \<open>
  A method that raises after it has changed the object leaves the change behind: such a
  method returns \<open>Inl (error, state at the raise)\<close>, and \<open>Inr\<close> of the new state when it
  returns.
\<close>

type_synonym 'a raised = "py_error \<times> 'a"

definition update_time_consts :: "engine \<Rightarrow> engine raised + engine" where
  "update_time_consts e =
     (if APP_SR * (attack_open_ms e / 1000) = 0 then Inl (ZeroDivisionError, e)
      else let e1 = e\<lparr>attack_open := exp (- 1 / (APP_SR * (attack_open_ms e / 1000)))\<rparr> in
      if APP_SR * (release_close_ms e1 / 1000) = 0 then Inl (ZeroDivisionError, e1)
      else Inr (e1\<lparr>release_close := exp (- 1 / (APP_SR * (release_close_ms e1 / 1000)))\<rparr>))"

text \<open>\<open>_refresh_eq_filters\<close>: \<open>zip\<close> stops at the shorter list.\<close>

fun refresh_eq_filters :: "biquad list \<Rightarrow> band list \<Rightarrow> biquad list raised + biquad list" where
  "refresh_eq_filters (bq # bqs) (p # ps) =
     (case set_peaking_eq APP_SR (band_freq p) (band_Q p) (band_gain p) bq of
        Inl err \<Rightarrow> Inl (err, bq # bqs)
      | Inr bq' \<Rightarrow>
          (case refresh_eq_filters bqs ps of
             Inl (err, bqs') \<Rightarrow> Inl (err, bq' # bqs')
           | Inr bqs' \<Rightarrow> Inr (bq' # bqs')))"
| "refresh_eq_filters bqs [] = Inr bqs"
| "refresh_eq_filters [] ps = Inr []"

definition default_eq_points :: "band list" where
  "default_eq_points =
     [\<lparr>band_freq = 100, band_Q = 1, band_gain = 0\<rparr>,
      \<lparr>band_freq = 300, band_Q = 1, band_gain = 0\<rparr>,
      \<lparr>band_freq = 1000, band_Q = 1, band_gain = 0\<rparr>,
      \<lparr>band_freq = 3000, band_Q = 1, band_gain = 0\<rparr>,
      \<lparr>band_freq = 8000, band_Q = 1, band_gain = 0\<rparr>]"

text \<open>
  The fields as \<open>__init__\<close> assigns them, before its two calls
  (\<open>_refresh_eq_filters\<close>, \<open>_update_time_consts\<close>) fill in the derived ones.
\<close>

definition engine_fields :: engine where
  "engine_fields =
     \<lparr>q = [], stream = None, stop_event = False, paused_flag = False,
      master_gain = 1,
      eq_points = default_eq_points,
      eq_filters = map (\<lambda>_. Biquad_init) default_eq_points,
      gate_enabled = False, gate_mode = ''Gate'',
      open_thr_db = - 42, close_thr_db = - 48, floor_db = - 40, expander_ratio = 4,
      attack_open_ms = 3, release_close_ms = 120,
      env = 0, current_gain = 1,
      attack_open = 0, release_close = 0\<rparr>"

definition AudioEngine_init :: "py_error + engine" where
  "AudioEngine_init =
     (case refresh_eq_filters (eq_filters engine_fields) (eq_points engine_fields) of
        Inl (err, _) \<Rightarrow> Inl err
      | Inr bqs \<Rightarrow>
          (case update_time_consts (engine_fields\<lparr>eq_filters := bqs\<rparr>) of
             Inl (err, _) \<Rightarrow> Inl err
           | Inr e \<Rightarrow> Inr e))"

subsection \<open>Setters\<close>

text \<open>Python's list indexing: a negative index counts from the end.\<close>

definition py_index :: "nat \<Rightarrow> int \<Rightarrow> nat option" where
  "py_index n idx =
     (let j = (if idx < 0 then idx + int n else idx)
      in if 0 \<le> j \<and> j < int n then Some (nat j) else None)"

definition set_volume_db :: "engine \<Rightarrow> real \<Rightarrow> engine" where
  "set_volume_db e db = e\<lparr>master_gain := db_to_gain db\<rparr>"

definition set_eq_gain :: "engine \<Rightarrow> int \<Rightarrow> real \<Rightarrow> engine raised + engine" where
  "set_eq_gain e idx db =
     (case py_index (length (eq_points e)) idx of
        None \<Rightarrow> Inl (IndexError, e)
      | Some k \<Rightarrow>
          (let e1 = e\<lparr>eq_points := (eq_points e)[k := (eq_points e ! k)\<lparr>band_gain := db\<rparr>]\<rparr>
           in case py_index (length (eq_filters e1)) idx of
                None \<Rightarrow> Inl (IndexError, e1)
              | Some j \<Rightarrow>
                  (let p = eq_points e1 ! k
                   in case set_peaking_eq APP_SR (band_freq p) (band_Q p) (band_gain p)
                             (eq_filters e1 ! j) of
                        Inl err \<Rightarrow> Inl (err, e1)
                      | Inr bq' \<Rightarrow> Inr (e1\<lparr>eq_filters := (eq_filters e1)[j := bq']\<rparr>))))"

definition set_gate_enabled :: "engine \<Rightarrow> bool \<Rightarrow> engine" where
  "set_gate_enabled e enabled = e\<lparr>gate_enabled := enabled\<rparr>"

definition set_gate_mode :: "engine \<Rightarrow> string \<Rightarrow> engine" where
  "set_gate_mode e mode = e\<lparr>gate_mode := (if mode = ''Expander'' then ''Expander'' else ''Gate'')\<rparr>"

definition set_gate_open_thr :: "engine \<Rightarrow> real \<Rightarrow> engine" where
  "set_gate_open_thr e db = e\<lparr>open_thr_db := db\<rparr>"

definition set_gate_close_thr :: "engine \<Rightarrow> real \<Rightarrow> engine" where
  "set_gate_close_thr e db = e\<lparr>close_thr_db := db\<rparr>"

definition set_gate_floor :: "engine \<Rightarrow> real \<Rightarrow> engine" where
  "set_gate_floor e db = e\<lparr>floor_db := db\<rparr>"

definition set_expander_ratio :: "engine \<Rightarrow> real \<Rightarrow> engine" where
  "set_expander_ratio e r = e\<lparr>expander_ratio := r\<rparr>"

subsection \<open>Lifecycle\<close>

text \<open>
  The output device is outside of the program: whether opening, starting and stopping
  the stream succeed is an argument of the model.
\<close>

datatype device = DeviceOk | OpenRaises | StartRaises

definition start :: "engine \<Rightarrow> device \<Rightarrow> engine raised + engine" where
  "start e dev =
     (if stream e \<noteq> None then Inr e
      else let e1 = e\<lparr>stop_event := False, paused_flag := False\<rparr> in
        (case dev of
           OpenRaises \<Rightarrow> Inl (PortAudioError, e1)
         | StartRaises \<Rightarrow> Inl (PortAudioError, e1\<lparr>stream := Some (OutputStream False)\<rparr>)
         | DeviceOk \<Rightarrow> Inr (e1\<lparr>stream := Some (OutputStream True)\<rparr>)))"

definition pause :: "engine \<Rightarrow> bool \<Rightarrow> engine" where
  "pause e flag = e\<lparr>paused_flag := flag\<rparr>"

text \<open>
  \<open>stop\<close>: the event is set; the stream, when there is one, is stopped and closed, and
  \<open>self.stream = None\<close> runs in the \<open>finally\<close> clause whether or not that raised; the
  queue is cleared only when it did not.
\<close>

definition stop :: "engine \<Rightarrow> bool \<Rightarrow> engine raised + engine" where
  "stop e stream_stop_raises =
     (let e1 = e\<lparr>stop_event := True\<rparr> in
      if stream e1 \<noteq> None \<and> stream_stop_raises
      then Inl (PortAudioError, e1\<lparr>stream := None\<rparr>)
      else Inr (e1\<lparr>stream := None, q := []\<rparr>))"

subsection \<open>Gate / expander\<close>

definition env_step :: "real \<Rightarrow> real \<Rightarrow> real \<Rightarrow> real \<Rightarrow> real" where
  "env_step atk rel ev x =
     (let s = \<bar>x\<bar>
      in if s > ev then atk * ev + (1 - atk) * s else rel * ev + (1 - rel) * s)"

definition env_to_db :: "real \<Rightarrow> real" where
  "env_to_db ev = 20 * log 10 (max ev (1 / 10 ^ 8))"

definition gate_target :: "string \<Rightarrow> real \<Rightarrow> real \<Rightarrow> real \<Rightarrow> real \<Rightarrow> real \<Rightarrow> real \<Rightarrow> real" where
  "gate_target mode open_thr close_thr floor_lin ratio g ev_db =
     (if mode = ''Gate'' then
        (if ev_db \<ge> open_thr then 1
         else if ev_db \<le> close_thr then floor_lin
         else g)
      else
        (if ev_db \<ge> open_thr then 1
         else if ev_db \<le> close_thr then floor_lin
         else (let out_db = open_thr + (ev_db - open_thr) / ratio;
                   gain_db = out_db - ev_db
               in max floor_lin (db_to_gain gain_db))))"

definition gain_step :: "real \<Rightarrow> real \<Rightarrow> real" where
  "gain_step g target =
     (if target > g then 0.9 * g + 0.1 * target else 0.98 * g + 0.02 * target)"

text \<open>
  The sample loop of \<open>_gate_or_expander\<close>, on the local copies read before it; it
  returns the rewritten block, the envelope and the gain.
\<close>

fun gate_loop :: "real \<Rightarrow> real \<Rightarrow> string \<Rightarrow> real \<Rightarrow> real \<Rightarrow> real \<Rightarrow> real \<Rightarrow>
    real \<Rightarrow> real \<Rightarrow> real list \<Rightarrow> real list \<times> real \<times> real" where
  "gate_loop atk rel mode open_thr close_thr floor_lin ratio ev g [] = ([], ev, g)"
| "gate_loop atk rel mode open_thr close_thr floor_lin ratio ev g (x # xs) =
     (let ev1 = env_step atk rel ev x;
          ev_db = env_to_db ev1;
          target = gate_target mode open_thr close_thr floor_lin ratio g ev_db;
          g1 = gain_step g target;
          (ys, ev2, g2) = gate_loop atk rel mode open_thr close_thr floor_lin ratio ev1 g1 xs
      in (x * g1 # ys, ev2, g2))"

definition gate_or_expander :: "engine \<Rightarrow> real list \<Rightarrow> engine \<times> real list" where
  "gate_or_expander e xs =
     (let atk = attack_open e;
          rel = release_close e;
          open_thr = open_thr_db e;
          close_thr = close_thr_db e;
          floor_lin = db_to_gain (floor_db e);
          ratio = max 1.001 (expander_ratio e);
          (ys, ev, g) = gate_loop atk rel (gate_mode e) open_thr close_thr floor_lin ratio
                          (env e) (current_gain e) xs
      in (e\<lparr>env := ev, current_gain := g\<rparr>, ys))"

subsection \<open>The output callback\<close>

text \<open>
  \<open>self.q.get(timeout=0.2)\<close>: the next item, or \<open>queue.Empty\<close> once the timeout has
  elapsed on an empty queue. The wait itself is not part of a sequential model; its
  bound is the argument.
\<close>

definition queue_get :: "item list \<Rightarrow> real \<Rightarrow> (item \<times> item list) option" where
  "queue_get items timeout = (case items of [] \<Rightarrow> None | x # xs \<Rightarrow> Some (x, xs))"

text \<open>
  \<open>np.frombuffer(item, dtype=np.float32)\<close>: the byte count must be a multiple of four;
  every four bytes are one sample. The value of four bytes as a float is an argument.
\<close>

fun samples_of :: "(8 word list \<Rightarrow> real) \<Rightarrow> 8 word list \<Rightarrow> real list" where
  "samples_of f32 (a # b # c # d # bs) = f32 [a, b, c, d] # samples_of f32 bs"
| "samples_of f32 bs = []"

definition frombuffer :: "(8 word list \<Rightarrow> real) \<Rightarrow> 8 word list \<Rightarrow> py_error + real list" where
  "frombuffer f32 bs =
     (if length bs mod 4 \<noteq> 0 then Inl ValueError else Inr (samples_of f32 bs))"

definition clip :: "real \<Rightarrow> real" where
  "clip v = min 1 (max (- 1) v)"

text \<open>
  \<open>outdata[:] = buf.reshape(-1, 1)\<close> on an output of \<open>frames\<close> rows: the lengths agree,
  or a single sample is broadcast, or the assignment raises.
\<close>

definition assign_out :: "nat \<Rightarrow> real list \<Rightarrow> py_error + real list" where
  "assign_out frames buf =
     (if length buf = frames then Inr buf
      else if length buf = 1 then Inr (replicate frames (hd buf))
      else Inl ValueError)"

definition callback :: "(8 word list \<Rightarrow> real) \<Rightarrow> engine \<Rightarrow> nat \<Rightarrow> engine raised + engine \<times> real list" where
  "callback f32 e frames =
     (if paused_flag e then Inr (e, replicate frames 0)
      else case queue_get (q e) 0.2 of
        None \<Rightarrow> Inr (e, replicate frames 0)
      | Some (it, rest) \<Rightarrow>
          (let e1 = e\<lparr>q := rest\<rparr> in
           case it of
             EndOfStream \<Rightarrow> Inr (e1, replicate frames 0)
           | ErrorItem msg \<Rightarrow> Inr (e1, replicate frames 0)
           | Frame bs \<Rightarrow>
               (case frombuffer f32 bs of
                  Inl err \<Rightarrow> Inl (err, e1)
                | Inr buf \<Rightarrow>
                    (let (e2, buf1) = (if gate_enabled e1 then gate_or_expander e1 buf
                                       else (e1, buf));
                         (bqs, buf2) = filter_bank (eq_filters e2) buf1;
                         e3 = e2\<lparr>eq_filters := bqs\<rparr>;
                         buf3 = map (\<lambda>v. v * master_gain e3) buf2;
                         buf4 = map clip buf3
                     in case assign_out frames buf4 of
                          Inl err \<Rightarrow> Inl (err, e3)
                        | Inr out \<Rightarrow> Inr (e3, out)))))"

subsection \<open>The engine as constructed, and filters in step with their bands\<close>

text \<open>
  The engine that \<open>__init__\<close> returns (\<open>init_returns\<close> below shows that the
  constructor does return).
\<close>

definition constructed :: engine where
  "constructed = (case AudioEngine_init of Inr e \<Rightarrow> e | Inl _ \<Rightarrow> engine_fields)"

text \<open>
  A filter is in step with its band when deriving its coefficients again from the band
  changes nothing: the state in which \<open>_refresh_eq_filters\<close> and \<open>set_eq_gain\<close> leave
  every filter.
\<close>

definition in_sync :: "biquad \<Rightarrow> band \<Rightarrow> bool" where
  "in_sync bq p \<longleftrightarrow>
     set_peaking_eq APP_SR (band_freq p) (band_Q p) (band_gain p) bq = Inr bq"

subsection \<open>The smoothing steps in floating point\<close>

text \<open>
  Rounding to the nearest integer, ties to the even one, and rounding a real to the
  nearest binary floating-point number of precision \<open>p\<close> and least exponent \<open>emin\<close>
  (subnormal numbers included; a result beyond the largest finite number is not
  modelled). \<open>to_f64\<close> gives a Python float, \<open>to_f32\<close> a \<open>numpy.float32\<close>.
\<close>

definition rne :: "real \<Rightarrow> int" where
  "rne y =
     (let f = \<lfloor>y\<rfloor>; d = y - of_int f
      in if d < 1 / 2 then f
         else if 1 / 2 < d then f + 1
         else if even f then f else f + 1)"

definition round_to :: "nat \<Rightarrow> int \<Rightarrow> real \<Rightarrow> real" where
  "round_to p emin x =
     (if x = 0 then 0
      else let e = max \<lfloor>log 2 \<bar>x\<bar>\<rfloor> emin - int p + 1
           in of_int (rne (x / 2 powr of_int e)) * 2 powr of_int e)"

definition to_f64 :: "real \<Rightarrow> real" where
  "to_f64 = round_to 53 (- 1022)"

definition to_f32 :: "real \<Rightarrow> real" where
  "to_f32 = round_to 24 (- 126)"

text \<open>
  The gain smoothing of \<open>_gate_or_expander\<close> in doubles: \<open>g\<close> and \<open>target\<close> are Python
  floats, the literals are the doubles nearest to them, and each product and the sum
  are rounded.
\<close>

definition gain_step_f64 :: "real \<Rightarrow> real \<Rightarrow> real" where
  "gain_step_f64 g target =
     (if target > g then to_f64 (to_f64 (to_f64 (9 / 10) * g) + to_f64 (to_f64 (1 / 10) * target))
      else to_f64 (to_f64 (to_f64 (98 / 100) * g) + to_f64 (to_f64 (2 / 100) * target)))"

text \<open>
  The envelope update in floating point. The sample \<open>x[i]\<close> is a \<open>numpy.float32\<close>
  scalar, the coefficients are Python floats. Where NumPy promotes the product of a
  Python float and a \<open>float32\<close> scalar to \<open>float64\<close> (before version 2) the update is
  computed in doubles, \<open>env_step_f64\<close>; where it keeps \<open>float32\<close> (from version 2) the
  envelope is a \<open>float32\<close> from the first sample on and the update is computed in
  single precision, the coefficients cast to it, \<open>env_step_f32\<close>.
\<close>

definition env_step_f64 :: "real \<Rightarrow> real \<Rightarrow> real \<Rightarrow> real \<Rightarrow> real" where
  "env_step_f64 atk rel ev x =
     (let s = \<bar>x\<bar>
      in if s > ev then to_f64 (to_f64 (atk * ev) + to_f64 (to_f64 (1 - atk) * s))
         else to_f64 (to_f64 (rel * ev) + to_f64 (to_f64 (1 - rel) * s)))"

definition env_step_f32 :: "real \<Rightarrow> real \<Rightarrow> real \<Rightarrow> real \<Rightarrow> real" where
  "env_step_f32 atk rel ev x =
     (let s = \<bar>x\<bar>
      in if s > ev then to_f32 (to_f32 (to_f32 atk * ev) + to_f32 (to_f32 (to_f64 (1 - atk)) * s))
         else to_f32 (to_f32 (to_f32 rel * ev) + to_f32 (to_f32 (to_f64 (1 - rel)) * s)))"

section \<open>Properties of one section\<close>

lemma biquad_loop_flat:
  "b0 c = 1 \<Longrightarrow> b1 c = a1 c \<Longrightarrow> b2 c = a2 c \<Longrightarrow> fst (biquad_loop c s1 s2 xs) = xs"
  by (induction xs arbitrary: s1 s2) (simp_all add: Let_def case_prod_beta)

lemma set_peaking_eq_flat:
  assumes "set_peaking_eq fs f0 Q 0 bq = Inr bq'"
  shows "b0 bq' = 1 \<and> b1 bq' = a1 bq' \<and> b2 bq' = a2 bq'"
  using assms by (auto simp: set_peaking_eq_def Let_def split: if_splits)

lemma process_inplace_flat:
  assumes "set_peaking_eq fs f0 Q 0 bq = Inr bq'"
  shows "snd (process_inplace bq' xs) = xs"
proof -
  have "fst (biquad_loop bq' (z1 bq') (z2 bq') xs) = xs"
    using set_peaking_eq_flat [OF assms] by (simp add: biquad_loop_flat)
  then show ?thesis
    by (simp add: process_inplace_def case_prod_beta)
qed


section \<open>Construction\<close>


lemma set_peaking_eq_below_nyquist:
  assumes "0 < f0" "f0 < 24000"
  shows "\<exists>bq'. set_peaking_eq APP_SR f0 1 g bq = Inr bq' \<and> z1 bq' = z1 bq \<and> z2 bq' = z2 bq"
proof -
  have "0 < 2 * pi * f0 / 48000" using assms by simp
  moreover have "2 * pi * f0 / 48000 < pi" using assms by simp
  ultimately have s: "0 < sin (2 * pi * f0 / 48000)" by (rule sin_gt_zero)
  have A: "0 < (10::real) powr (g / 40)" by simp
  have "0 < sin (2 * pi * f0 / 48000) / (2 * 1) / 10 powr (g / 40)"
    using s A by simp
  then have "1 + sin (2 * pi * f0 / 48000) / (2 * 1) / 10 powr (g / 40) \<noteq> 0" by linarith
  then show ?thesis
    by (simp add: set_peaking_eq_def Let_def APP_SR_def)
qed

lemma refresh_default:
  "\<exists>bqs. refresh_eq_filters (eq_filters engine_fields) (eq_points engine_fields) = Inr bqs \<and> length bqs = 5"
proof -
  obtain c1 where c1: "set_peaking_eq APP_SR 100 1 0 Biquad_init = Inr c1"
    using set_peaking_eq_below_nyquist [of 100] by auto
  obtain c2 where c2: "set_peaking_eq APP_SR 300 1 0 Biquad_init = Inr c2"
    using set_peaking_eq_below_nyquist [of 300] by auto
  obtain c3 where c3: "set_peaking_eq APP_SR 1000 1 0 Biquad_init = Inr c3"
    using set_peaking_eq_below_nyquist [of 1000] by auto
  obtain c4 where c4: "set_peaking_eq APP_SR 3000 1 0 Biquad_init = Inr c4"
    using set_peaking_eq_below_nyquist [of 3000] by auto
  obtain c5 where c5: "set_peaking_eq APP_SR 8000 1 0 Biquad_init = Inr c5"
    using set_peaking_eq_below_nyquist [of 8000] by auto
  show ?thesis
    by (simp add: engine_fields_def default_eq_points_def c1 c2 c3 c4 c5)
qed

lemma init_returns: "AudioEngine_init = Inr constructed"
proof -
  obtain bqs where r: "refresh_eq_filters (eq_filters engine_fields) (eq_points engine_fields) = Inr bqs"
    using refresh_default by auto
  have "\<exists>e. update_time_consts (engine_fields\<lparr>eq_filters := bqs\<rparr>) = Inr e"
    by (simp add: update_time_consts_def engine_fields_def APP_SR_def Let_def)
  then obtain e where u: "update_time_consts (engine_fields\<lparr>eq_filters := bqs\<rparr>) = Inr e" by auto
  have i: "AudioEngine_init = Inr e" by (simp add: AudioEngine_init_def r u)
  show ?thesis unfolding constructed_def i by simp
qed



lemma update_time_consts_result:
  assumes "update_time_consts e = Inr e'"
  shows "e' = e\<lparr>attack_open := exp (- 1 / (APP_SR * (attack_open_ms e / 1000))),
                 release_close := exp (- 1 / (APP_SR * (release_close_ms e / 1000)))\<rparr>"
  using assms by (auto simp: update_time_consts_def Let_def split: if_splits)

lemma set_peaking_eq_idem:
  assumes "set_peaking_eq fs f0 Q g bq = Inr bq'"
  shows "set_peaking_eq fs f0 Q g bq' = Inr bq'"
  using assms by (auto simp: set_peaking_eq_def Let_def split: if_splits)

lemma refresh_in_sync:
  "refresh_eq_filters bqs ps = Inr bqs' \<Longrightarrow> length bqs = length ps \<Longrightarrow> list_all2 in_sync bqs' ps"
proof (induction bqs ps arbitrary: bqs' rule: refresh_eq_filters.induct)
  case (1 bq bqs p ps)
  then show ?case
    by (auto simp: in_sync_def split: sum.splits prod.splits dest: set_peaking_eq_idem)
next
  case (2 bqs)
  then show ?case by simp
next
  case (3 ps)
  then show ?case by simp
qed

lemma constructed_fields:
  "q constructed = [] \<and> stream constructed = None \<and> \<not> stop_event constructed
   \<and> \<not> paused_flag constructed \<and> master_gain constructed = 1
   \<and> eq_points constructed = default_eq_points
   \<and> \<not> gate_enabled constructed \<and> gate_mode constructed = ''Gate''
   \<and> open_thr_db constructed = - 42 \<and> close_thr_db constructed = - 48
   \<and> floor_db constructed = - 40 \<and> expander_ratio constructed = 4
   \<and> env constructed = 0 \<and> current_gain constructed = 1
   \<and> attack_open constructed = exp (- 1 / 144)
   \<and> release_close constructed = exp (- 1 / 5760)"
proof -
  obtain bqs where r: "refresh_eq_filters (eq_filters engine_fields) (eq_points engine_fields) = Inr bqs"
    using refresh_default by auto
  from init_returns have "update_time_consts (engine_fields\<lparr>eq_filters := bqs\<rparr>) = Inr constructed"
    by (simp add: AudioEngine_init_def r split: sum.splits prod.splits)
  note c = update_time_consts_result [OF this]
  show ?thesis
    unfolding c by (simp add: engine_fields_def APP_SR_def)
qed

lemma constructed_filters:
  "length (eq_filters constructed) = 5 \<and> list_all2 in_sync (eq_filters constructed) (eq_points constructed)"
proof -
  obtain bqs where r: "refresh_eq_filters (eq_filters engine_fields) (eq_points engine_fields) = Inr bqs"
    and l: "length bqs = 5"
    using refresh_default by auto
  from init_returns have "update_time_consts (engine_fields\<lparr>eq_filters := bqs\<rparr>) = Inr constructed"
    by (simp add: AudioEngine_init_def r split: sum.splits prod.splits)
  note c = update_time_consts_result [OF this]
  have f: "eq_filters constructed = bqs" and p: "eq_points constructed = eq_points engine_fields"
    unfolding c by simp_all
  have "list_all2 in_sync bqs (eq_points engine_fields)"
    by (rule refresh_in_sync [OF r]) (simp add: engine_fields_def)
  then show ?thesis by (simp add: f p l)
qed

lemma filter_bank_flat:
  "list_all2 (\<lambda>bq p. band_gain p = 0 \<and> in_sync bq p) bqs ps \<Longrightarrow> snd (filter_bank bqs xs) = xs"
proof (induction bqs arbitrary: ps xs)
  case Nil
  then show ?case by simp
next
  case (Cons bq bqs)
  then obtain p ps' where ps: "ps = p # ps'" and g: "band_gain p = 0" and s: "in_sync bq p"
    and rest: "list_all2 (\<lambda>bq p. band_gain p = 0 \<and> in_sync bq p) bqs ps'"
    by (auto simp: list_all2_Cons1)
  from s g have "set_peaking_eq APP_SR (band_freq p) (band_Q p) 0 bq = Inr bq"
    by (simp add: in_sync_def)
  then have "snd (process_inplace bq xs) = xs" by (rule process_inplace_flat)
  with Cons.IH [OF rest] show ?case
    by (simp add: case_prod_beta)
qed

section \<open>Flat filters\<close>

text \<open>
  Claim C6, as amended. For every sample rate \<open>fs > 0\<close>, centre frequency \<open>f0\<close> and
  \<open>Q > 0\<close> with \<open>sin (2 pi f0 / fs) \<noteq> - 2 Q\<close> (true of every centre frequency below
  half the sample rate), \<open>set_peaking_eq\<close> with a gain of 0 dB returns, and the filter
  it leaves passes every block through unchanged, whatever its two state values are.
  Hence when every band gain is 0 dB and every filter is in step with its band, the
  chain of filters of the engine returns its input.
\<close>

theorem zero_gain_is_identity:
  "(0 < fs \<and> 0 < Q \<and> sin (2 * pi * f0 / fs) \<noteq> - 2 * Q \<longrightarrow>
      (\<exists>bq'. set_peaking_eq fs f0 Q 0 bq = Inr bq' \<and> snd (process_inplace bq' xs) = xs))
   \<and> (list_all2 (\<lambda>bq p. band_gain p = 0 \<and> in_sync bq p) (eq_filters e) (eq_points e) \<longrightarrow>
      snd (filter_bank (eq_filters e) xs) = xs)"
proof (intro conjI impI)
  assume a: "0 < fs \<and> 0 < Q \<and> sin (2 * pi * f0 / fs) \<noteq> - 2 * Q"
  then have "1 + sin (2 * pi * f0 / fs) / (2 * Q) \<noteq> 0"
    by (simp add: field_simps)
  with a obtain bq' where b: "set_peaking_eq fs f0 Q 0 bq = Inr bq'"
    by (simp add: set_peaking_eq_def Let_def)
  with process_inplace_flat [OF b]
  show "\<exists>bq'. set_peaking_eq fs f0 Q 0 bq = Inr bq' \<and> snd (process_inplace bq' xs) = xs"
    by simp
next
  assume "list_all2 (\<lambda>bq p. band_gain p = 0 \<and> in_sync bq p) (eq_filters e) (eq_points e)"
  then show "snd (filter_bank (eq_filters e) xs) = xs" by (rule filter_bank_flat)
qed

text \<open>
  The theorem at 48 kHz, 1 kHz, \<open>Q = 1\<close> and a fresh filter, and at the engine as
  constructed, on the block \<open>[1, - 1/2]\<close>.
\<close>

theorem zero_gain_is_identity_witness:
  "(0 < (48000::real) \<and> 0 < (1::real) \<and> sin (2 * pi * 1000 / 48000) \<noteq> - 2 * 1)
   \<and> (\<exists>bq'. set_peaking_eq 48000 1000 1 0 Biquad_init = Inr bq'
         \<and> snd (process_inplace bq' [1, - 1 / 2]) = [1, - 1 / 2])
   \<and> list_all2 (\<lambda>bq p. band_gain p = 0 \<and> in_sync bq p)
        (eq_filters constructed) (eq_points constructed)
   \<and> snd (filter_bank (eq_filters constructed) [1, - 1 / 2]) = [1, - 1 / 2]"
proof -
  have "- 1 \<le> sin (pi / 24)" by (rule sin_ge_minus_one)
  then have "sin (pi / 24) \<noteq> - 2" by linarith
  then have h: "0 < (48000::real) \<and> 0 < (1::real) \<and> sin (2 * pi * 1000 / 48000) \<noteq> - 2 * 1"
    by simp
  have "\<forall>p \<in> set (eq_points constructed). band_gain p = 0"
    using constructed_fields by (simp add: default_eq_points_def)
  then have s: "list_all2 (\<lambda>bq p. band_gain p = 0 \<and> in_sync bq p)
      (eq_filters constructed) (eq_points constructed)"
    using constructed_filters by (auto simp: list_all2_conv_all_nth)
  show ?thesis
    using h s zero_gain_is_identity [of 48000 1 1000 Biquad_init "[1, - 1 / 2]" constructed]
    by blast
qed

text \<open>
  Claim C6, as stated, fails: at 48 kHz, a centre frequency of 36 kHz and \<open>Q = 1/2\<close>
  the angle is \<open>3/2 pi\<close>, its sine is \<open>- 1\<close>, \<open>a0 = 1 + alpha / A\<close> is zero, and the
  first normalising division raises.
\<close>

theorem zero_gain_raises_at_three_quarters:
  "(0::real) < 48000 \<and> (0::real) < 1 / 2
   \<and> set_peaking_eq 48000 36000 (1 / 2) 0 Biquad_init = Inl ZeroDivisionError"
proof -
  have "2 * pi * 36000 / 48000 = 3 / 2 * pi" by simp
  then have "sin (2 * pi * 36000 / 48000) = - 1" by (simp only: sin_3over2_pi)
  then show ?thesis by (simp add: set_peaking_eq_def Let_def)
qed

section \<open>The callback and the queue\<close>

lemma gate_loop_env:
  "fst (snd (gate_loop atk rel m ot ct fl r ev g xs)) = foldl (env_step atk rel) ev xs"
  by (induction xs arbitrary: ev g) (simp_all add: Let_def case_prod_beta)

lemma gate_loop_length:
  "length (fst (gate_loop atk rel m ot ct fl r ev g xs)) = length xs"
  by (induction xs arbitrary: ev g) (simp_all add: Let_def case_prod_beta)

lemma gate_or_expander_env:
  "env (fst (gate_or_expander e xs)) = foldl (env_step (attack_open e) (release_close e)) (env e) xs"
  by (simp add: gate_or_expander_def Let_def case_prod_beta gate_loop_env)

lemma gate_or_expander_length:
  "length (snd (gate_or_expander e xs)) = length xs"
  by (simp add: gate_or_expander_def Let_def case_prod_beta gate_loop_length)

lemma gate_or_expander_q:
  "q (fst (gate_or_expander e xs)) = q e"
  by (simp add: gate_or_expander_def Let_def case_prod_beta)

lemma biquad_loop_length:
  "length (fst (biquad_loop c s1 s2 xs)) = length xs"
  by (induction xs arbitrary: s1 s2) (simp_all add: Let_def case_prod_beta)

lemma filter_bank_length:
  "length (snd (filter_bank bqs xs)) = length xs"
  by (induction bqs arbitrary: xs)
     (simp_all add: Let_def case_prod_beta process_inplace_def biquad_loop_length)

lemma samples_of_length:
  "length (samples_of f32 bs) = length bs div 4"
  by (induction f32 bs rule: samples_of.induct) simp_all

lemma callback_frame:
  assumes "\<not> paused_flag e" "q e = Frame bs # rest" "length bs = 4 * n"
  shows "\<exists>e' out. callback f32 e n = Inr (e', out) \<and> length out = n \<and> q e' = rest"
proof -
  have fb: "frombuffer f32 bs = Inr (samples_of f32 bs)"
    using assms(3) by (simp add: frombuffer_def)
  have len: "length (samples_of f32 bs) = n"
    using assms(3) by (simp add: samples_of_length)
  show ?thesis
  proof (cases "gate_enabled e")
    case True
    then show ?thesis
      using assms(1,2) fb len
      by (simp add: callback_def queue_get_def Let_def case_prod_beta assign_out_def
          filter_bank_length gate_or_expander_length gate_or_expander_q)
  next
    case False
    then show ?thesis
      using assms(1,2) fb len
      by (simp add: callback_def queue_get_def Let_def case_prod_beta assign_out_def
          filter_bank_length)
  qed
qed

lemma callback_pulls:
  assumes "\<not> paused_flag e" "q e = it # rest"
  shows "case callback f32 e n of Inl (err, e') \<Rightarrow> q e' = rest | Inr (e', out) \<Rightarrow> q e' = rest"
  using assms
  by (cases it)
     (auto simp: callback_def queue_get_def Let_def case_prod_beta gate_or_expander_q
           split: sum.splits)

text \<open>
  Claim C8. When the callback is not paused and its \<open>get\<close> with the timeout of 0.2 s
  finds no item, it returns (it does not raise) with the whole output block set to
  zero, and the engine is as it was. The wait is bounded by the timeout that the call
  passes; the model has no clock.
\<close>

theorem timeout_gives_silence:
  assumes "\<not> paused_flag e" "queue_get (q e) 0.2 = None"
  shows "callback f32 e frames = Inr (e, replicate frames 0)"
  using assms by (simp add: callback_def)

text \<open>The engine as constructed has an empty queue and is not paused.\<close>

theorem timeout_gives_silence_witness:
  "\<not> paused_flag constructed \<and> queue_get (q constructed) 0.2 = None
   \<and> callback (\<lambda>_. 0) constructed BLOCK = Inr (constructed, replicate BLOCK 0)"
proof -
  have p: "\<not> paused_flag constructed" using constructed_fields by simp
  have g: "queue_get (q constructed) 0.2 = None"
    using constructed_fields by (simp add: queue_get_def)
  show ?thesis using p g timeout_gives_silence [OF p g] by simp
qed

text \<open>
  Claim C5, as amended. When the callback pops the end-of-stream sentinel (or the error
  tuple) it returns a block of zeros without raising, and nothing but the queue has
  changed. It keeps no record of the end of the stream: the next invocation pulls
  again, taking the next item when there is one and returning silence when there is
  none.
\<close>

theorem sentinel_gives_silence_next_call_pulls:
  assumes "\<not> paused_flag e" "q e = it # rest" "it = EndOfStream \<or> it = ErrorItem msg"
  shows "callback f32 e n = Inr (e\<lparr>q := rest\<rparr>, replicate n 0)
    \<and> (rest = [] \<longrightarrow> callback f32 (e\<lparr>q := rest\<rparr>) n = Inr (e\<lparr>q := rest\<rparr>, replicate n 0))
    \<and> (\<forall>it2 rest2. rest = it2 # rest2 \<longrightarrow>
         (case callback f32 (e\<lparr>q := rest\<rparr>) n of
            Inl (err, e2) \<Rightarrow> q e2 = rest2
          | Inr (e2, out) \<Rightarrow> q e2 = rest2))"
proof (intro conjI allI impI)
  show "callback f32 e n = Inr (e\<lparr>q := rest\<rparr>, replicate n 0)"
    using assms by (auto simp: callback_def queue_get_def)
next
  assume "rest = []"
  then show "callback f32 (e\<lparr>q := rest\<rparr>) n = Inr (e\<lparr>q := rest\<rparr>, replicate n 0)"
    using assms(1) by (simp add: callback_def queue_get_def)
next
  fix it2 rest2
  assume "rest = it2 # rest2"
  then show "case callback f32 (e\<lparr>q := rest\<rparr>) n of
            Inl (err, e2) \<Rightarrow> q e2 = rest2
          | Inr (e2, out) \<Rightarrow> q e2 = rest2"
    using assms(1) callback_pulls [of "e\<lparr>q := rest\<rparr>" it2 rest2 f32 n] by simp
qed

text \<open>
  Claim C5, as stated, fails: with the sentinel followed by a frame of two samples in
  the queue, the first invocation returns silence and leaves the frame, and the second
  invocation takes the frame out of the queue.
\<close>

theorem callback_pulls_after_sentinel:
  "(case callback (\<lambda>_. 0) (constructed\<lparr>q := [EndOfStream, Frame [0, 0, 0, 0, 0, 0, 0, 0]]\<rparr>) 2 of
      Inl _ \<Rightarrow> False
    | Inr (e1, out1) \<Rightarrow>
        out1 = [0, 0] \<and> q e1 = [Frame [0, 0, 0, 0, 0, 0, 0, 0]]
        \<and> (case callback (\<lambda>_. 0) e1 2 of
              Inl _ \<Rightarrow> False
            | Inr (e2, out2) \<Rightarrow> q e2 = [] \<and> length out2 = 2))"
proof -
  let ?fr = "Frame [0, 0, 0, 0, 0, 0, 0, 0]"
  let ?e0 = "constructed\<lparr>q := [EndOfStream, ?fr]\<rparr>"
  let ?e1 = "constructed\<lparr>q := [?fr]\<rparr>"
  have p: "\<not> paused_flag constructed" using constructed_fields by simp
  have "replicate 2 (0::real) = [0, 0]" by (simp add: numeral_2_eq_2)
  then have first: "callback (\<lambda>_. 0) ?e0 2 = Inr (?e1, [0, 0])"
    using p by (simp add: callback_def queue_get_def)
  have "\<exists>e' out. callback (\<lambda>_. 0) ?e1 2 = Inr (e', out) \<and> length out = 2 \<and> q e' = []"
    using p callback_frame [of ?e1 "[0, 0, 0, 0, 0, 0, 0, 0]" "[]" 2 "\<lambda>_. 0"] by simp
  then obtain e2 out2 where second: "callback (\<lambda>_. 0) ?e1 2 = Inr (e2, out2)"
    and "length out2 = 2" "q e2 = []" by blast
  then show ?thesis unfolding first by simp
qed

text \<open>The amended claim at that queue, with a frame of one sample.\<close>

theorem sentinel_gives_silence_next_call_pulls_witness:
  "\<not> paused_flag (constructed\<lparr>q := [EndOfStream, Frame [0, 0, 0, 0]]\<rparr>)
   \<and> callback (\<lambda>_. 0) (constructed\<lparr>q := [EndOfStream, Frame [0, 0, 0, 0]]\<rparr>) 1
       = Inr (constructed\<lparr>q := [Frame [0, 0, 0, 0]]\<rparr>, [0])
   \<and> (case callback (\<lambda>_. 0) (constructed\<lparr>q := [Frame [0, 0, 0, 0]]\<rparr>) 1 of
            Inl (err, e2) \<Rightarrow> q e2 = []
          | Inr (e2, out) \<Rightarrow> q e2 = [])"
proof -
  let ?e0 = "constructed\<lparr>q := [EndOfStream, Frame [0, 0, 0, 0]]\<rparr>"
  have p: "\<not> paused_flag ?e0" using constructed_fields by simp
  have qq: "q ?e0 = EndOfStream # [Frame [0, 0, 0, 0]]" by simp
  have s: "EndOfStream = EndOfStream \<or> EndOfStream = ErrorItem []" by simp
  show ?thesis
    using p sentinel_gives_silence_next_call_pulls [OF p qq s, of "\<lambda>_. 0" 1] by simp
qed

section \<open>Stopping\<close>

lemma env_after_one_sample:
  "env (fst (gate_or_expander constructed [1])) = 1 - exp (- 1 / 144)"
proof -
  have "env_step (exp (- 1 / 144)) (exp (- 1 / 5760)) 0 1 = 1 - exp (- 1 / 144)"
    by (simp add: env_step_def)
  then show ?thesis
    using constructed_fields by (simp add: gate_or_expander_env)
qed

lemma exp_below_one: "exp (- 1 / 144 :: real) < 1"
  by simp

text \<open>
  Claim C2, as amended. When \<open>stop\<close> returns, the queue is empty, the stream is
  \<open>None\<close> and the stop event is set; the envelope and the smoothed gain of the gate
  are what they were before the call (\<open>stop\<close> does not assign them).
\<close>

theorem stop_clears_queue_keeps_gate_state:
  assumes "stop e stream_stop_raises = Inr e'"
  shows "q e' = [] \<and> stream e' = None \<and> stop_event e'
         \<and> env e' = env e \<and> current_gain e' = current_gain e"
  using assms by (auto simp: stop_def Let_def split: if_splits)

text \<open>
  Claim C2, as stated, fails: after the gate of the engine as constructed has processed
  the one sample 1, the envelope is \<open>1 - exp (- 1/144)\<close>; \<open>stop\<close> returns with the
  queue empty and with that envelope, not the 0 of a fresh engine.
\<close>

theorem stop_keeps_envelope:
  "(case stop (fst (gate_or_expander constructed [1])) False of
      Inl _ \<Rightarrow> False
    | Inr e' \<Rightarrow> q e' = [] \<and> env e' = 1 - exp (- 1 / 144) \<and> env e' \<noteq> env constructed)"
proof -
  have "env constructed = 0" using constructed_fields by simp
  then show ?thesis
    using env_after_one_sample exp_below_one by (simp add: stop_def Let_def)
qed

text \<open>The amended claim at that engine, with a stream that stops without raising.\<close>

theorem stop_clears_queue_keeps_gate_state_witness:
  "stop (fst (gate_or_expander constructed [1])) False
     = Inr ((fst (gate_or_expander constructed [1]))\<lparr>stop_event := True, stream := None, q := []\<rparr>)
   \<and> env ((fst (gate_or_expander constructed [1]))\<lparr>stop_event := True, stream := None, q := []\<rparr>)
     = env (fst (gate_or_expander constructed [1]))"
proof -
  let ?e = "fst (gate_or_expander constructed [1])"
  have s: "stop ?e False = Inr (?e\<lparr>stop_event := True, stream := None, q := []\<rparr>)"
    by (simp add: stop_def Let_def)
  show ?thesis
    using s stop_clears_queue_keeps_gate_state [OF s] by simp
qed

section \<open>Setting one band\<close>

lemma py_index_5:
  "py_index 5 idx = (if - 5 \<le> idx \<and> idx \<le> 4 then Some (nat (if idx < 0 then idx + 5 else idx)) else None)"
  by (auto simp: py_index_def Let_def)

text \<open>
  Claim C4, as amended. On an engine with its five bands and five filters,
  \<open>set_eq_gain\<close> does not clamp the index: an index below \<open>- 5\<close> or above 4 raises
  \<open>IndexError\<close> and changes nothing. When the call returns, the index was in
  \<open>[- 5, 4]\<close>, a negative index having counted from the end; the band it selects has the
  new gain, the filter of that band has the coefficients derived from it and keeps its
  two state values, and the other four bands and filters are untouched.
\<close>

theorem set_eq_gain_touches_one_band:
  assumes "length (eq_points e) = 5" "length (eq_filters e) = 5"
  shows "(idx < - 5 \<or> 4 < idx \<longrightarrow> set_eq_gain e idx db = Inl (IndexError, e))
    \<and> (\<forall>e'. set_eq_gain e idx db = Inr e' \<longrightarrow>
          - 5 \<le> idx \<and> idx \<le> 4
          \<and> (let k = nat (if idx < 0 then idx + 5 else idx) in
               (\<forall>j < 5. j \<noteq> k \<longrightarrow>
                   eq_filters e' ! j = eq_filters e ! j \<and> eq_points e' ! j = eq_points e ! j)
               \<and> set_peaking_eq APP_SR (band_freq (eq_points e ! k)) (band_Q (eq_points e ! k)) db
                    (eq_filters e ! k) = Inr (eq_filters e' ! k)
               \<and> z1 (eq_filters e' ! k) = z1 (eq_filters e ! k)
               \<and> z2 (eq_filters e' ! k) = z2 (eq_filters e ! k)
               \<and> eq_points e' ! k = (eq_points e ! k)\<lparr>band_gain := db\<rparr>))"
proof (intro conjI allI impI)
  assume "idx < - 5 \<or> 4 < idx"
  then show "set_eq_gain e idx db = Inl (IndexError, e)"
    using assms by (auto simp: set_eq_gain_def py_index_5)
next
  fix e'
  assume r: "set_eq_gain e idx db = Inr e'"
  show "- 5 \<le> idx" using r assms
    by (auto simp: set_eq_gain_def py_index_5 split: if_splits)
  show "idx \<le> 4" using r assms
    by (auto simp: set_eq_gain_def py_index_5 split: if_splits)
  define k where "k = nat (if idx < 0 then idx + 5 else idx)"
  have k5: "k < 5" using \<open>- 5 \<le> idx\<close> \<open>idx \<le> 4\<close> by (auto simp: k_def)
  have ix: "py_index 5 idx = Some k"
    using \<open>- 5 \<le> idx\<close> \<open>idx \<le> 4\<close> by (simp add: py_index_5 k_def)
  let ?p = "(eq_points e ! k)\<lparr>band_gain := db\<rparr>"
  from r obtain bq' where
    bq: "set_peaking_eq APP_SR (band_freq ?p) (band_Q ?p) (band_gain ?p) (eq_filters e ! k) = Inr bq'"
    and e': "e' = e\<lparr>eq_points := (eq_points e)[k := ?p], eq_filters := (eq_filters e)[k := bq']\<rparr>"
    using assms k5 by (auto simp: set_eq_gain_def ix Let_def split: sum.splits)
  have zz: "z1 bq' = z1 (eq_filters e ! k) \<and> z2 bq' = z2 (eq_filters e ! k)"
    using bq by (auto simp: set_peaking_eq_def Let_def split: if_splits)
  show "let k = nat (if idx < 0 then idx + 5 else idx) in
               (\<forall>j < 5. j \<noteq> k \<longrightarrow>
                   eq_filters e' ! j = eq_filters e ! j \<and> eq_points e' ! j = eq_points e ! j)
               \<and> set_peaking_eq APP_SR (band_freq (eq_points e ! k)) (band_Q (eq_points e ! k)) db
                    (eq_filters e ! k) = Inr (eq_filters e' ! k)
               \<and> z1 (eq_filters e' ! k) = z1 (eq_filters e ! k)
               \<and> z2 (eq_filters e' ! k) = z2 (eq_filters e ! k)
               \<and> eq_points e' ! k = (eq_points e ! k)\<lparr>band_gain := db\<rparr>"
    unfolding Let_def k_def [symmetric]
    using bq zz assms k5 by (simp add: e')
qed

text \<open>
  Claim C4, as stated, fails: on the engine as constructed the index 5 raises
  \<open>IndexError\<close> (it does not act on band 4), and the index \<open>- 1\<close> sets the gain of
  band 4 (not of the nearest band, 0).
\<close>

theorem set_eq_gain_index_five_raises:
  "set_eq_gain constructed 5 3 = Inl (IndexError, constructed)
   \<and> (\<exists>e'. set_eq_gain constructed (- 1) 3 = Inr e' \<and> band_gain (eq_points e' ! 4) = 3
          \<and> eq_points e' ! 0 = eq_points constructed ! 0)"
proof -
  have l: "length (eq_points constructed) = 5" "length (eq_filters constructed) = 5"
    using constructed_fields constructed_filters by (simp_all add: default_eq_points_def)
  have a: "set_eq_gain constructed 5 3 = Inl (IndexError, constructed)"
    using l by (simp add: set_eq_gain_def py_index_5)
  have p4: "eq_points constructed ! 4 = \<lparr>band_freq = 8000, band_Q = 1, band_gain = 0\<rparr>"
    using constructed_fields by (simp add: default_eq_points_def)
  obtain bq' where bq: "set_peaking_eq APP_SR 8000 1 3 (eq_filters constructed ! 4) = Inr bq'"
    using set_peaking_eq_below_nyquist [of 8000] by auto
  have "set_eq_gain constructed (- 1) 3 =
      Inr (constructed\<lparr>eq_points := (eq_points constructed)[4 := (eq_points constructed ! 4)\<lparr>band_gain := 3\<rparr>],
                       eq_filters := (eq_filters constructed)[4 := bq']\<rparr>)"
    using l by (simp add: set_eq_gain_def py_index_5 Let_def p4 bq)
  then show ?thesis using a l by simp
qed

text \<open>The amended claim on the engine as constructed, at the indices 7 and 2.\<close>

theorem set_eq_gain_touches_one_band_witness:
  "length (eq_points constructed) = 5 \<and> length (eq_filters constructed) = 5
   \<and> set_eq_gain constructed 7 6 = Inl (IndexError, constructed)
   \<and> (\<exists>e'. set_eq_gain constructed 2 6 = Inr e'
         \<and> eq_filters e' ! 0 = eq_filters constructed ! 0
         \<and> eq_filters e' ! 4 = eq_filters constructed ! 4
         \<and> z1 (eq_filters e' ! 2) = z1 (eq_filters constructed ! 2)
         \<and> z2 (eq_filters e' ! 2) = z2 (eq_filters constructed ! 2))"
proof -
  have l: "length (eq_points constructed) = 5" "length (eq_filters constructed) = 5"
    using constructed_fields constructed_filters by (simp_all add: default_eq_points_def)
  have p2: "eq_points constructed ! 2 = \<lparr>band_freq = 1000, band_Q = 1, band_gain = 0\<rparr>"
    using constructed_fields by (simp add: default_eq_points_def)
  obtain bq' where bq: "set_peaking_eq APP_SR 1000 1 6 (eq_filters constructed ! 2) = Inr bq'"
    using set_peaking_eq_below_nyquist [of 1000] by auto
  have r: "set_eq_gain constructed 2 6 =
      Inr (constructed\<lparr>eq_points := (eq_points constructed)[2 := (eq_points constructed ! 2)\<lparr>band_gain := 6\<rparr>],
                       eq_filters := (eq_filters constructed)[2 := bq']\<rparr>)"
    using l by (simp add: set_eq_gain_def py_index_5 Let_def p2 bq)
  show ?thesis
    using l r set_eq_gain_touches_one_band [OF l, of 7 6] set_eq_gain_touches_one_band [OF l, of 2 6]
    by (simp add: Let_def)
qed

section \<open>The decode producer\<close>

lemma split_frames_lengths:
  "\<forall>f \<in> set (fst (split_frames leftover)). length f = BLOCK * 4"
proof (induction leftover rule: split_frames.induct)
  case (1 leftover)
  show ?case
  proof (cases "length leftover \<ge> BLOCK * 4")
    case True
    have t: "length (take (BLOCK * 4) leftover) = BLOCK * 4" using True by simp
    have s: "split_frames leftover =
        (take (BLOCK * 4) leftover # fst (split_frames (drop (BLOCK * 4) leftover)),
         snd (split_frames (drop (BLOCK * 4) leftover)))"
      using True by (subst split_frames.simps) (simp only: if_True Let_def case_prod_beta)
    from 1 [OF True] t show ?thesis unfolding s by simp
  next
    case False
    have s: "split_frames leftover = ([], leftover)"
      using False by (subst split_frames.simps) (simp only: if_False)
    show ?thesis unfolding s by simp
  qed
qed


lemma reader_loop_frames:
  "Frame bs \<in> set (reader_loop leftover evs) \<Longrightarrow> length bs = BLOCK * 4"
proof (induction leftover evs rule: reader_loop.induct)
  case (5 leftover chunk evs)
  show ?case
  proof (cases "chunk = []")
    case True
    with 5 show ?thesis by simp
  next
    case False
    obtain frames rest where s: "split_frames (leftover @ chunk) = (frames, rest)"
      by (cases "split_frames (leftover @ chunk)")
    from "5.prems" False s
    have "bs \<in> set frames \<or> Frame bs \<in> set (reader_loop rest evs)" by auto
    then show ?thesis
    proof
      assume "bs \<in> set frames"
      then show ?thesis using split_frames_lengths [of "leftover @ chunk"] s by simp
    next
      assume "Frame bs \<in> set (reader_loop rest evs)"
      then show ?thesis using "5.IH" [OF False s [symmetric] refl] by simp
    qed
  qed
qed simp_all

lemma run_frames:
  "Frame bs \<in> set (run popen_error evs) \<Longrightarrow> length bs = BLOCK * 4"
  by (cases popen_error) (auto simp: run_def dest: reader_loop_frames)


text \<open>
  Claim C9. Every frame that \<open>run\<close> puts into the queue, whatever the reads return and
  however the loop ends, has exactly \<open>BLOCK * 4 = 4096\<close> bytes; bytes left over at the
  end are not put. The callback, not paused and asked for \<open>BLOCK\<close> rows, therefore
  returns on such a frame with a block of \<open>BLOCK\<close> samples, for every engine state.
\<close>

theorem enqueued_frames_are_whole_blocks:
  assumes "Frame bs \<in> set (run popen_error evs)"
  shows "length bs = BLOCK * 4 \<and> BLOCK * 4 = 4096
    \<and> (\<forall>(e::engine) rest f32. \<not> paused_flag e \<and> q e = Frame bs # rest \<longrightarrow>
          (\<exists>e' out. callback f32 e BLOCK = Inr (e', out) \<and> length out = BLOCK \<and> q e' = rest))"
proof (intro conjI allI impI)
  show l: "length bs = BLOCK * 4" using assms by (rule run_frames)
  show "BLOCK * 4 = 4096" unfolding BLOCK_def by simp
  fix e :: engine and rest f32
  assume a: "\<not> paused_flag e \<and> q e = Frame bs # rest"
  have l': "length bs = 4 * BLOCK" using l by (simp only: mult.commute)
  from a have p: "\<not> paused_flag e" and qe: "q e = Frame bs # rest" by blast+
  show "\<exists>e' out. callback f32 e BLOCK = Inr (e', out) \<and> length out = BLOCK \<and> q e' = rest"
    by (rule callback_frame [OF p qe l'])
qed

lemma split_104:
  "split_frames (replicate 104 0) = ([], replicate 104 0)"
proof -
  have "\<not> length (replicate 104 (0::8 word)) \<ge> BLOCK * 4"
    unfolding BLOCK_def length_replicate by simp
  then show ?thesis
    by (subst split_frames.simps) (simp only: if_False)
qed

lemma split_4000:
  "split_frames (replicate 4000 0) = ([], replicate 4000 0)"
proof -
  have "\<not> length (replicate 4000 (0::8 word)) \<ge> BLOCK * 4"
    unfolding BLOCK_def length_replicate by simp
  then show ?thesis
    by (subst split_frames.simps) (simp only: if_False)
qed

lemma split_4200:
  "split_frames (replicate 4200 0) = ([replicate 4096 0], replicate 104 0)"
proof -
  have b: "BLOCK * 4 = 4096" unfolding BLOCK_def by simp
  have c: "length (replicate 4200 (0::8 word)) \<ge> BLOCK * 4"
    unfolding b length_replicate by simp
  have d: "drop (BLOCK * 4) (replicate 4200 (0::8 word)) = replicate 104 0"
    unfolding b drop_replicate by simp
  have t: "take (BLOCK * 4) (replicate 4200 (0::8 word)) = replicate 4096 0"
    unfolding b take_replicate by simp
  show ?thesis
    using c by (subst split_frames.simps) (simp only: if_True d t split_104 Let_def prod.case)
qed


lemma run_partial_reads:
  "run None [Read (replicate 4000 0), Paused, Read (replicate 200 0), Read []]
     = [Frame (replicate 4096 0), EndOfStream]"
proof -
  have n1: "replicate 4000 (0::8 word) \<noteq> []" and n2: "replicate 200 (0::8 word) \<noteq> []"
    unfolding replicate_empty by simp_all
  have a: "[] @ replicate 4000 (0::8 word) = replicate 4000 0" by (rule append_Nil)
  have "replicate (4000 + 200) (0::8 word) = replicate 4000 0 @ replicate 200 0"
    by (rule replicate_add)
  then have j: "replicate 4000 (0::8 word) @ replicate 200 0 = replicate 4200 0" by simp
  have l0: "reader_loop [] [Read (replicate 4000 0), Paused, Read (replicate 200 0), Read []]
      = [Frame (replicate 4096 0), EndOfStream]"
    by (simp only: reader_loop.simps simp_thms if_True if_False n1 n2 a j split_4000 split_4200
        Let_def prod.case list.map append_Cons append_Nil)
  show ?thesis unfolding run_def by (simp only: option.case l0)
qed

text \<open>
  Two short reads of 4000 and 200 bytes with a pause between them, then the end of the
  file: one frame of 4096 bytes is put, the 104 bytes left over are not.
\<close>

theorem enqueued_frames_are_whole_blocks_witness:
  "Frame (replicate 4096 0)
      \<in> set (run None [Read (replicate 4000 0), Paused, Read (replicate 200 0), Read []])
   \<and> length (replicate 4096 (0::8 word)) = BLOCK * 4
   \<and> (\<exists>e' out. callback (\<lambda>_. 0) (constructed\<lparr>q := [Frame (replicate 4096 0)]\<rparr>) BLOCK = Inr (e', out)
         \<and> length out = BLOCK \<and> q e' = [])"
proof -
  let ?e = "constructed\<lparr>q := [Frame (replicate 4096 0)]\<rparr>"
  have m: "Frame (replicate 4096 0)
      \<in> set (run None [Read (replicate 4000 0), Paused, Read (replicate 200 0), Read []])"
    unfolding run_partial_reads by (simp only: list.set insertI1)
  have p: "\<not> paused_flag ?e \<and> q ?e = Frame (replicate 4096 0) # []"
    using constructed_fields by simp
  note t = enqueued_frames_are_whole_blocks [OF m]
  from t have l: "length (replicate 4096 (0::8 word)) = BLOCK * 4" by (rule conjunct1)
  from t have "\<forall>(e::engine) rest f32. \<not> paused_flag e \<and> q e = Frame (replicate 4096 0) # rest \<longrightarrow>
          (\<exists>e' out. callback f32 e BLOCK = Inr (e', out) \<and> length out = BLOCK \<and> q e' = rest)"
    by (rule conjunct2 [THEN conjunct2])
  then have c: "\<exists>e' out. callback (\<lambda>_. 0) ?e BLOCK = Inr (e', out) \<and> length out = BLOCK \<and> q e' = []"
    using p by blast
  from m l c show ?thesis by (intro conjI)
qed

section \<open>The gate: gain bounds\<close>

lemma db_to_gain_pos: "0 < db_to_gain db"
  by (simp add: db_to_gain_def)

lemma db_to_gain_le_one: "db \<le> 0 \<Longrightarrow> db_to_gain db \<le> 1"
proof -
  assume "db \<le> 0"
  then have "db / 20 \<le> 0" by simp
  then have "(10::real) powr (db / 20) \<le> 10 powr 0" by (intro powr_mono) simp_all
  then show ?thesis by (simp add: db_to_gain_def)
qed

lemma gain_step_between:
  assumes "lo \<le> g" "g \<le> hi" "lo \<le> t" "t \<le> hi"
  shows "lo \<le> gain_step g t \<and> gain_step g t \<le> hi"
  using assms unfolding gain_step_def by (auto; linarith)

lemma gate_target_gate:
  "gate_target ''Gate'' ot ct fl r g d = 1 \<or> gate_target ''Gate'' ot ct fl r g d = fl
   \<or> gate_target ''Gate'' ot ct fl r g d = g"
  by (simp add: gate_target_def)

lemma gate_step_between:
  assumes "fl \<le> 1" "fl \<le> g" "g \<le> 1"
  shows "fl \<le> gain_step g (gate_target ''Gate'' ot ct fl r g d)
         \<and> gain_step g (gate_target ''Gate'' ot ct fl r g d) \<le> 1"
proof -
  have "fl \<le> gate_target ''Gate'' ot ct fl r g d \<and> gate_target ''Gate'' ot ct fl r g d \<le> 1"
    using assms by (simp add: gate_target_def)
  then show ?thesis using assms by (intro gain_step_between) simp_all
qed

lemma gate_loop_gain_between:
  assumes "fl \<le> 1"
  shows "fl \<le> g \<Longrightarrow> g \<le> 1 \<Longrightarrow>
         fl \<le> snd (snd (gate_loop atk rel ''Gate'' ot ct fl r ev g xs))
         \<and> snd (snd (gate_loop atk rel ''Gate'' ot ct fl r ev g xs)) \<le> 1"
proof (induction xs arbitrary: ev g)
  case Nil
  then show ?case by simp
next
  case (Cons x xs)
  let ?g1 = "gain_step g (gate_target ''Gate'' ot ct fl r g (env_to_db (env_step atk rel ev x)))"
  have "fl \<le> ?g1 \<and> ?g1 \<le> 1"
    using assms Cons.prems by (intro gate_step_between) simp_all
  then have "fl \<le> snd (snd (gate_loop atk rel ''Gate'' ot ct fl r (env_step atk rel ev x) ?g1 xs))
     \<and> snd (snd (gate_loop atk rel ''Gate'' ot ct fl r (env_step atk rel ev x) ?g1 xs)) \<le> 1"
    using Cons.IH by blast
  then show ?case by (simp add: Let_def case_prod_beta)
qed

lemma gate_loop_output_between:
  assumes "fl \<le> 1" "0 \<le> fl"
  shows "fl \<le> g \<Longrightarrow> g \<le> 1 \<Longrightarrow>
         list_all2 (\<lambda>y x. fl * \<bar>x\<bar> \<le> \<bar>y\<bar> \<and> \<bar>y\<bar> \<le> \<bar>x\<bar>)
           (fst (gate_loop atk rel ''Gate'' ot ct fl r ev g xs)) xs"
proof (induction xs arbitrary: ev g)
  case Nil
  then show ?case by simp
next
  case (Cons x xs)
  let ?g1 = "gain_step g (gate_target ''Gate'' ot ct fl r g (env_to_db (env_step atk rel ev x)))"
  have b: "fl \<le> ?g1 \<and> ?g1 \<le> 1"
    using assms Cons.prems by (intro gate_step_between) simp_all
  then have rest: "list_all2 (\<lambda>y x. fl * \<bar>x\<bar> \<le> \<bar>y\<bar> \<and> \<bar>y\<bar> \<le> \<bar>x\<bar>)
           (fst (gate_loop atk rel ''Gate'' ot ct fl r (env_step atk rel ev x) ?g1 xs)) xs"
    using Cons.IH by blast
  have g0: "0 \<le> ?g1" using b assms by linarith
  have "\<bar>x * ?g1\<bar> = \<bar>x\<bar> * ?g1" using g0 by (simp add: abs_mult)
  moreover have "fl * \<bar>x\<bar> \<le> \<bar>x\<bar> * ?g1"
  proof -
    have "fl * \<bar>x\<bar> \<le> ?g1 * \<bar>x\<bar>"
      by (rule mult_right_mono) (use b in simp_all)
    then show ?thesis by (simp only: mult.commute)
  qed
  moreover have "\<bar>x\<bar> * ?g1 \<le> \<bar>x\<bar>"
  proof -
    have "\<bar>x\<bar> * ?g1 \<le> \<bar>x\<bar> * 1"
      by (rule mult_left_mono) (use b in simp_all)
    then show ?thesis by simp
  qed
  ultimately have "fl * \<bar>x\<bar> \<le> \<bar>x * ?g1\<bar> \<and> \<bar>x * ?g1\<bar> \<le> \<bar>x\<bar>" by simp
  with rest show ?case by (simp add: Let_def case_prod_beta)
qed

text \<open>
  Claim C10, as amended: in exact arithmetic. In Gate mode with \<open>floor_db \<le> 0\<close>, when
  the smoothed gain is between the floor gain \<open>db_to_gain floor_db\<close> and 1 before
  \<open>_gate_or_expander\<close> processes a block, it is between them after; and every sample
  of the block comes out with a magnitude between the floor gain times its own and its
  own. (In the code's doubles a step can round to one unit in the last place below the
  floor gain; the last section shows it.)
\<close>

theorem gate_gain_stays_between_floor_and_unity:
  assumes "gate_mode e = ''Gate''" "floor_db e \<le> 0"
    "db_to_gain (floor_db e) \<le> current_gain e" "current_gain e \<le> 1"
  shows "db_to_gain (floor_db (fst (gate_or_expander e xs))) \<le> current_gain (fst (gate_or_expander e xs))
    \<and> current_gain (fst (gate_or_expander e xs)) \<le> 1
    \<and> list_all2 (\<lambda>y x. db_to_gain (floor_db e) * \<bar>x\<bar> \<le> \<bar>y\<bar> \<and> \<bar>y\<bar> \<le> \<bar>x\<bar>)
          (snd (gate_or_expander e xs)) xs"
proof -
  let ?fl = "db_to_gain (floor_db e)"
  have f1: "?fl \<le> 1" using assms(2) by (rule db_to_gain_le_one)
  have f0: "0 \<le> ?fl" using db_to_gain_pos [of "floor_db e"] by simp
  note g = gate_loop_gain_between [OF f1 assms(3,4)]
  note o = gate_loop_output_between [OF f1 f0 assms(3,4)]
  show ?thesis
    using g o assms(1) by (simp add: gate_or_expander_def Let_def case_prod_beta)
qed

text \<open>The engine as constructed (Gate mode, floor at - 40 dB, gain 1) on the block \<open>[1, 0]\<close>.\<close>

theorem gate_gain_stays_between_floor_and_unity_witness:
  "gate_mode constructed = ''Gate'' \<and> floor_db constructed \<le> 0
   \<and> db_to_gain (floor_db constructed) \<le> current_gain constructed
   \<and> current_gain constructed \<le> 1
   \<and> db_to_gain (floor_db (fst (gate_or_expander constructed [1, 0])))
        \<le> current_gain (fst (gate_or_expander constructed [1, 0]))
   \<and> current_gain (fst (gate_or_expander constructed [1, 0])) \<le> 1"
proof -
  have m: "gate_mode constructed = ''Gate''" using constructed_fields by simp
  have f: "floor_db constructed \<le> 0" using constructed_fields by simp
  have g1: "current_gain constructed \<le> 1" using constructed_fields by simp
  have "db_to_gain (floor_db constructed) \<le> 1" using f by (rule db_to_gain_le_one)
  then have g0: "db_to_gain (floor_db constructed) \<le> current_gain constructed"
    using constructed_fields by simp
  show ?thesis
    using m f g0 g1 gate_gain_stays_between_floor_and_unity [OF m f g0 g1, of "[1, 0]"]
    by simp
qed

section \<open>The hysteresis dead zone\<close>

lemma level_minus_45: "env_to_db (10 powr (- 9 / 4)) = - 45"
proof -
  have "(10::real) powr (- 8) \<le> 10 powr (- 9 / 4)" by (intro powr_mono) simp_all
  moreover have "(10::real) powr (- 8) = 1 / 10 ^ 8"
    by (simp add: powr_minus_divide)
  ultimately have "max (10 powr (- 9 / 4)) (1 / 10 ^ 8) = (10::real) powr (- 9 / 4)"
    by (simp only: max_def) simp
  then show ?thesis by (simp add: env_to_db_def)
qed

lemma hold_level: "0 \<le> v \<Longrightarrow> env_step atk rel v v = v"
  by (simp add: env_step_def algebra_simps)

text \<open>
  Claim C3, as amended: in exact arithmetic. In Gate mode, at a sample whose updated
  envelope in dB is strictly between the close and the open threshold, the target is
  the current gain, the smoothing step returns it unchanged, and the loop goes on to
  the next sample with the same gain: the sample is multiplied by the gain as it was.
  (In the code's doubles the step can round to a neighbouring gain; the last section
  shows it.)
\<close>

theorem gate_dead_zone_freezes_gain:
  assumes "mode = ''Gate''"
    "close_thr < env_to_db (env_step atk rel ev x)"
    "env_to_db (env_step atk rel ev x) < open_thr"
  shows "gate_target mode open_thr close_thr floor_lin ratio g (env_to_db (env_step atk rel ev x)) = g
    \<and> gain_step g g = g
    \<and> gate_loop atk rel mode open_thr close_thr floor_lin ratio ev g (x # xs)
        = (case gate_loop atk rel mode open_thr close_thr floor_lin ratio (env_step atk rel ev x) g xs of
             (ys, ev2, g2) \<Rightarrow> (x * g # ys, ev2, g2))"
proof -
  have t: "gate_target mode open_thr close_thr floor_lin ratio g (env_to_db (env_step atk rel ev x)) = g"
    using assms by (simp add: gate_target_def)
  have s: "gain_step g g = g" by (simp add: gain_step_def)
  show ?thesis
    by (simp add: t s Let_def)
qed

text \<open>
  Default thresholds (- 42 and - 48 dB), the engine's two time constants, an envelope
  at - 45 dB and a sample of that magnitude, a gain of one half.
\<close>

theorem gate_dead_zone_freezes_gain_witness:
  "- 48 < env_to_db (env_step (exp (- 1 / 144)) (exp (- 1 / 5760)) (10 powr (- 9 / 4)) (10 powr (- 9 / 4)))
   \<and> env_to_db (env_step (exp (- 1 / 144)) (exp (- 1 / 5760)) (10 powr (- 9 / 4)) (10 powr (- 9 / 4))) < - 42
   \<and> gate_loop (exp (- 1 / 144)) (exp (- 1 / 5760)) ''Gate'' (- 42) (- 48) (db_to_gain (- 40)) 4
        (10 powr (- 9 / 4)) (1 / 2) [10 powr (- 9 / 4)]
      = ([10 powr (- 9 / 4) * (1 / 2)], 10 powr (- 9 / 4), 1 / 2)"
proof -
  let ?v = "(10::real) powr (- 9 / 4)"
  have h: "env_step (exp (- 1 / 144)) (exp (- 1 / 5760)) ?v ?v = ?v"
    by (rule hold_level) simp
  have d: "env_to_db (env_step (exp (- 1 / 144)) (exp (- 1 / 5760)) ?v ?v) = - 45"
    by (simp only: h level_minus_45)
  have lo: "- 48 < env_to_db (env_step (exp (- 1 / 144)) (exp (- 1 / 5760)) ?v ?v)"
    unfolding d by simp
  have hi: "env_to_db (env_step (exp (- 1 / 144)) (exp (- 1 / 5760)) ?v ?v) < - 42"
    unfolding d by simp
  note t = gate_dead_zone_freezes_gain [OF refl lo hi, of "db_to_gain (- 40)" 4 "1 / 2" "[]"]
  from t have "gate_loop (exp (- 1 / 144)) (exp (- 1 / 5760)) ''Gate'' (- 42) (- 48) (db_to_gain (- 40)) 4
        ?v (1 / 2) [?v]
      = (case gate_loop (exp (- 1 / 144)) (exp (- 1 / 5760)) ''Gate'' (- 42) (- 48) (db_to_gain (- 40)) 4
                (env_step (exp (- 1 / 144)) (exp (- 1 / 5760)) ?v ?v) (1 / 2) [] of
           (ys, ev2, g2) \<Rightarrow> (?v * (1 / 2) # ys, ev2, g2))"
    by (rule conjunct2 [THEN conjunct2])
  then have "gate_loop (exp (- 1 / 144)) (exp (- 1 / 5760)) ''Gate'' (- 42) (- 48) (db_to_gain (- 40)) 4
        ?v (1 / 2) [?v]
      = ([?v * (1 / 2)], ?v, 1 / 2)"
    unfolding h by (simp only: gate_loop.simps prod.case)
  with lo hi show ?thesis by (intro conjI)
qed

text \<open>
  Claim C1 is about the Expander branch. What that branch computes: for a level strictly
  between the thresholds, a floor gain of at most 1 and ratios \<open>1 \<le> r1 < r2\<close>, the
  target is at least 1 and is strictly larger at the larger ratio. The level is raised,
  and raised more the larger the ratio is (\<open>out_db\<close> divides the distance to the open
  threshold by the ratio, so it lies above the level).
\<close>

theorem expander_target_grows_with_ratio:
  assumes "mode \<noteq> ''Gate''" "close_thr < d" "d < open_thr" "floor_lin \<le> 1"
    "1 \<le> r1" "r1 < r2"
  shows "1 \<le> gate_target mode open_thr close_thr floor_lin r1 g d
    \<and> gate_target mode open_thr close_thr floor_lin r1 g d
        < gate_target mode open_thr close_thr floor_lin r2 g d"
proof -
  define k where "k = open_thr - d"
  have k: "0 < k" using assms(3) by (simp add: k_def)
  have r1: "0 < r1" and r2: "0 < r2" using assms(5,6) by linarith+
  have e1: "open_thr + (d - open_thr) / r1 - d = k * (1 - 1 / r1)"
    by (simp add: k_def algebra_simps diff_divide_distrib)
  have e2: "open_thr + (d - open_thr) / r2 - d = k * (1 - 1 / r2)"
    by (simp add: k_def algebra_simps diff_divide_distrib)
  have "1 / r1 \<le> 1" using assms(5) r1 by simp
  then have n1: "0 \<le> k * (1 - 1 / r1)" using k by simp
  have "1 / r2 < 1 / r1" using assms(6) r1 by (simp add: frac_less2)
  then have lt: "k * (1 - 1 / r1) < k * (1 - 1 / r2)" using k by simp
  have p1: "1 \<le> db_to_gain (k * (1 - 1 / r1))"
  proof -
    have "(10::real) powr 0 \<le> 10 powr (k * (1 - 1 / r1) / 20)"
      using n1 by (intro powr_mono) simp_all
    then show ?thesis by (simp add: db_to_gain_def)
  qed
  have p2: "db_to_gain (k * (1 - 1 / r1)) < db_to_gain (k * (1 - 1 / r2))"
    unfolding db_to_gain_def using lt by (intro powr_less_mono) simp_all
  have t1: "gate_target mode open_thr close_thr floor_lin r1 g d = db_to_gain (k * (1 - 1 / r1))"
    using assms(1,2,3,4) p1 by (simp add: gate_target_def Let_def e1 max_def)
  have t2: "gate_target mode open_thr close_thr floor_lin r2 g d = db_to_gain (k * (1 - 1 / r2))"
    using assms(1,2,3,4) p1 p2 by (simp add: gate_target_def Let_def e2 max_def)
  show ?thesis using p1 p2 by (simp add: t1 t2)
qed

text \<open>
  Default thresholds and floor, a level of - 45 dB, ratios 2 and 4: the targets are
  \<open>10 powr (1.5 / 20)\<close> and \<open>10 powr (2.25 / 20)\<close>.
\<close>

theorem expander_amplifies_more_at_larger_ratio:
  "db_to_gain (- 40) \<le> 1
   \<and> 1 \<le> gate_target ''Expander'' (- 42) (- 48) (db_to_gain (- 40)) 2 1 (- 45)
   \<and> gate_target ''Expander'' (- 42) (- 48) (db_to_gain (- 40)) 2 1 (- 45)
       < gate_target ''Expander'' (- 42) (- 48) (db_to_gain (- 40)) 4 1 (- 45)"
proof -
  have f: "db_to_gain (- 40) \<le> 1" by (rule db_to_gain_le_one) simp
  have "1 \<le> gate_target ''Expander'' (- 42) (- 48) (db_to_gain (- 40)) 2 1 (- 45)
   \<and> gate_target ''Expander'' (- 42) (- 48) (db_to_gain (- 40)) 2 1 (- 45)
       < gate_target ''Expander'' (- 42) (- 48) (db_to_gain (- 40)) 4 1 (- 45)"
    by (rule expander_target_grows_with_ratio [OF _ _ _ f]) simp_all
  with f show ?thesis by (intro conjI) simp_all
qed

section \<open>The envelope follower\<close>

lemma env_step_error:
  "env_step atk rel ev x - \<bar>x\<bar> = (if \<bar>x\<bar> > ev then atk else rel) * (ev - \<bar>x\<bar>)"
  by (simp add: env_step_def Let_def algebra_simps)

lemma env_step_contracts:
  assumes "0 \<le> atk" "0 \<le> rel"
  shows "\<bar>env_step atk rel ev x - \<bar>x\<bar>\<bar> \<le> max atk rel * \<bar>ev - \<bar>x\<bar>\<bar>"
proof -
  let ?c = "if \<bar>x\<bar> > ev then atk else rel"
  have c0: "0 \<le> ?c" and c1: "?c \<le> max atk rel" using assms by simp_all
  have "\<bar>env_step atk rel ev x - \<bar>x\<bar>\<bar> = ?c * \<bar>ev - \<bar>x\<bar>\<bar>"
    unfolding env_step_error using c0 by (simp only: abs_mult abs_of_nonneg)
  also have "\<dots> \<le> max atk rel * \<bar>ev - \<bar>x\<bar>\<bar>"
    using c1 by (rule mult_right_mono) simp
  finally show ?thesis .
qed

lemma foldl_replicate_snoc:
  "foldl f a (replicate (Suc n) x) = f (foldl f a (replicate n x)) x"
proof -
  have "replicate (Suc n) x = replicate n x @ [x]" by (simp add: replicate_append_same)
  then show ?thesis by (simp only: foldl_append foldl.simps)
qed

lemma envelope_error_bound:
  assumes "0 \<le> atk" "0 \<le> rel"
  shows "\<bar>foldl (env_step atk rel) ev (replicate n x) - \<bar>x\<bar>\<bar> \<le> (max atk rel) ^ n * \<bar>ev - \<bar>x\<bar>\<bar>"
proof (induction n)
  case 0
  then show ?case by simp
next
  case (Suc n)
  let ?c = "max atk rel"
  let ?prev = "foldl (env_step atk rel) ev (replicate n x)"
  have c0: "0 \<le> ?c" using assms by simp
  have "\<bar>env_step atk rel ?prev x - \<bar>x\<bar>\<bar> \<le> ?c * \<bar>?prev - \<bar>x\<bar>\<bar>"
    using assms by (rule env_step_contracts)
  also have "\<dots> \<le> ?c * (?c ^ n * \<bar>ev - \<bar>x\<bar>\<bar>)"
    using Suc.IH c0 by (rule mult_left_mono)
  finally show ?case by (simp only: foldl_replicate_snoc power_Suc mult.assoc)
qed

lemma envelope_converges:
  assumes "0 \<le> atk" "atk < 1" "0 \<le> rel" "rel < 1"
  shows "(\<lambda>n. foldl (env_step atk rel) ev (replicate n x)) \<longlonglongrightarrow> \<bar>x\<bar>"
proof -
  let ?c = "max atk rel"
  have c0: "0 \<le> ?c" and c1: "?c < 1" using assms by simp_all
  have "(\<lambda>n. ?c ^ n) \<longlonglongrightarrow> 0" using c0 c1 by (rule LIMSEQ_realpow_zero)
  then have "(\<lambda>n. ?c ^ n * \<bar>ev - \<bar>x\<bar>\<bar>) \<longlonglongrightarrow> 0 * \<bar>ev - \<bar>x\<bar>\<bar>"
    by (rule tendsto_mult_right)
  then have z: "(\<lambda>n. ?c ^ n * \<bar>ev - \<bar>x\<bar>\<bar>) \<longlonglongrightarrow> 0" by simp
  have "(\<lambda>n. foldl (env_step atk rel) ev (replicate n x) - \<bar>x\<bar>) \<longlonglongrightarrow> 0"
  proof (rule tendsto_0_le [OF z, where K = 1])
    have "\<And>n. norm (foldl (env_step atk rel) ev (replicate n x) - \<bar>x\<bar>)
        \<le> norm (?c ^ n * \<bar>ev - \<bar>x\<bar>\<bar>) * 1"
    proof -
      fix n
      have "0 \<le> ?c ^ n * \<bar>ev - \<bar>x\<bar>\<bar>" using c0 by simp
      then have "norm (?c ^ n * \<bar>ev - \<bar>x\<bar>\<bar>) = ?c ^ n * \<bar>ev - \<bar>x\<bar>\<bar>"
        by (simp only: real_norm_def abs_of_nonneg)
      then show "norm (foldl (env_step atk rel) ev (replicate n x) - \<bar>x\<bar>)
        \<le> norm (?c ^ n * \<bar>ev - \<bar>x\<bar>\<bar>) * 1"
        using envelope_error_bound [OF assms(1,3), of ev n x] by (simp only: real_norm_def mult_1_right)
    qed
    then show "eventually (\<lambda>n. norm (foldl (env_step atk rel) ev (replicate n x) - \<bar>x\<bar>)
        \<le> norm (?c ^ n * \<bar>ev - \<bar>x\<bar>\<bar>) * 1) sequentially"
      by (rule always_eventually [OF allI])
  qed
  then show ?thesis by (simp only: LIM_zero_iff)
qed

lemma time_const_between:
  assumes "0 < ms"
  shows "0 \<le> exp (- 1 / (APP_SR * (ms / 1000))) \<and> exp (- 1 / (APP_SR * (ms / 1000))) < 1"
proof -
  have "0 < APP_SR * (ms / 1000)" using assms by (simp add: APP_SR_def)
  then have "- 1 / (APP_SR * (ms / 1000)) < 0" by simp
  then show ?thesis by simp
qed

lemma constructed_ms:
  "attack_open_ms constructed = 3 \<and> release_close_ms constructed = 120"
proof -
  obtain bqs where r: "refresh_eq_filters (eq_filters engine_fields) (eq_points engine_fields) = Inr bqs"
    using refresh_default by auto
  from init_returns have "update_time_consts (engine_fields\<lparr>eq_filters := bqs\<rparr>) = Inr constructed"
    by (simp add: AudioEngine_init_def r split: sum.splits prod.splits)
  note c = update_time_consts_result [OF this]
  show ?thesis
    unfolding c by (simp add: engine_fields_def)
qed

text \<open>
  Claim C7, as amended: in exact arithmetic. With the two coefficients that
  \<open>_update_time_consts\<close> computes from positive time constants,
  \<open>c = max attack_open release_close\<close> is below 1, every envelope update on a sample
  of magnitude \<open>a\<close> brings the envelope to within \<open>c\<close> times its former distance from
  \<open>a\<close>, and from every starting envelope the envelope after \<open>n\<close> samples of that
  magnitude tends to \<open>a\<close> as \<open>n\<close> grows. (In the code's floating point the update
  can return the envelope unchanged short of \<open>a\<close>; the last section shows it.)
\<close>

theorem envelope_contracts_to_amplitude:
  assumes "update_time_consts e0 = Inr e" "0 < attack_open_ms e0" "0 < release_close_ms e0"
  shows "max (attack_open e) (release_close e) < 1
    \<and> (\<forall>ev x. \<bar>env_step (attack_open e) (release_close e) ev x - \<bar>x\<bar>\<bar>
                \<le> max (attack_open e) (release_close e) * \<bar>ev - \<bar>x\<bar>\<bar>)
    \<and> (\<forall>ev x. (\<lambda>n. env (fst (gate_or_expander (e\<lparr>env := ev\<rparr>) (replicate n x))))
                \<longlonglongrightarrow> \<bar>x\<bar>)"
proof -
  note r = update_time_consts_result [OF assms(1)]
  have a: "attack_open e = exp (- 1 / (APP_SR * (attack_open_ms e0 / 1000)))"
    and b: "release_close e = exp (- 1 / (APP_SR * (release_close_ms e0 / 1000)))"
    unfolding r by simp_all
  have ab: "0 \<le> attack_open e \<and> attack_open e < 1"
    unfolding a using assms(2) by (rule time_const_between)
  have rb: "0 \<le> release_close e \<and> release_close e < 1"
    unfolding b using assms(3) by (rule time_const_between)
  have 1: "max (attack_open e) (release_close e) < 1" using ab rb by simp
  have 2: "\<forall>ev x. \<bar>env_step (attack_open e) (release_close e) ev x - \<bar>x\<bar>\<bar>
                \<le> max (attack_open e) (release_close e) * \<bar>ev - \<bar>x\<bar>\<bar>"
    using ab rb by (intro allI env_step_contracts) simp_all
  have 3: "\<forall>ev x. (\<lambda>n. env (fst (gate_or_expander (e\<lparr>env := ev\<rparr>) (replicate n x))))
                \<longlonglongrightarrow> \<bar>x\<bar>"
  proof (intro allI)
    fix ev x
    have "(\<lambda>n. foldl (env_step (attack_open e) (release_close e)) ev (replicate n x))
        \<longlonglongrightarrow> \<bar>x\<bar>"
      using ab rb by (intro envelope_converges) simp_all
    then show "(\<lambda>n. env (fst (gate_or_expander (e\<lparr>env := ev\<rparr>) (replicate n x))))
        \<longlonglongrightarrow> \<bar>x\<bar>"
      by (simp add: gate_or_expander_env)
  qed
  from 1 2 3 show ?thesis by (intro conjI)
qed

text \<open>
  The engine as constructed (3 ms and 120 ms), started from an envelope of 1 on samples
  of \<open>- 1/100\<close>.
\<close>

theorem envelope_contracts_to_amplitude_witness:
  "update_time_consts constructed
      = Inr (constructed\<lparr>attack_open := exp (- 1 / 144), release_close := exp (- 1 / 5760)\<rparr>)
   \<and> 0 < attack_open_ms constructed \<and> 0 < release_close_ms constructed
   \<and> max (exp (- 1 / 144)) (exp (- 1 / 5760)) < (1::real)
   \<and> (\<lambda>n. env (fst (gate_or_expander
          (constructed\<lparr>attack_open := exp (- 1 / 144), release_close := exp (- 1 / 5760), env := 1\<rparr>)
          (replicate n (- 1 / 100)))))
        \<longlonglongrightarrow> \<bar>- 1 / 100\<bar>"
proof -
  let ?e = "constructed\<lparr>attack_open := exp (- 1 / 144), release_close := exp (- 1 / 5760)\<rparr>"
  have u: "update_time_consts constructed = Inr ?e"
    using constructed_ms by (simp add: update_time_consts_def APP_SR_def Let_def)
  have a: "0 < attack_open_ms constructed" and b: "0 < release_close_ms constructed"
    using constructed_ms by simp_all
  note t = envelope_contracts_to_amplitude [OF u a b]
  from t have 1: "max (exp (- 1 / 144)) (exp (- 1 / 5760)) < (1::real)" by simp
  from t have "\<forall>ev x. (\<lambda>n. env (fst (gate_or_expander (?e\<lparr>env := ev\<rparr>) (replicate n x))))
                \<longlonglongrightarrow> \<bar>x\<bar>"
    by (rule conjunct2 [THEN conjunct2])
  then have 2: "(\<lambda>n. env (fst (gate_or_expander (?e\<lparr>env := 1\<rparr>) (replicate n (- 1 / 100)))))
        \<longlonglongrightarrow> \<bar>- 1 / 100\<bar>"
    by blast
  from u a b 1 2 show ?thesis by (intro conjI)
qed

section \<open>Where the code's floating point parts from exact arithmetic\<close>

subsection \<open>Evaluating a rounding\<close>

lemma rne_near:
  assumes "\<bar>y - of_int m\<bar> < 1 / 2"
  shows "rne y = m"
proof (cases "of_int m \<le> y")
  case True
  then have f: "\<lfloor>y\<rfloor> = m" using assms by (intro floor_unique) linarith+
  have "y - of_int m < 1 / 2" using assms by linarith
  then show ?thesis by (simp add: rne_def f Let_def)
next
  case False
  have c: "real_of_int (m - 1) = real_of_int m - 1" by simp
  have f: "\<lfloor>y\<rfloor> = m - 1"
    using assms False unfolding c [symmetric] by (intro floor_unique; unfold c; linarith)
  have "1 / 2 < y - of_int (m - 1)" using assms False unfolding c by linarith
  then show ?thesis by (simp add: rne_def f Let_def)
qed

lemma round_to_eval:
  fixes k m :: int
  assumes lo: "2 powr of_int k \<le> \<bar>x\<bar>"
    and hi: "\<bar>x\<bar> < 2 powr (of_int k + 1)"
    and emin: "emin \<le> k"
    and near: "\<bar>x - of_int m * 2 powr of_int (k - int p + 1)\<bar> < 2 powr of_int (k - int p + 1) / 2"
  shows "round_to p emin x = of_int m * 2 powr of_int (k - int p + 1)"
proof -
  let ?u = "2 powr of_int (k - int p + 1) :: real"
  have u: "0 < ?u" by simp
  have "0 < (2::real) powr of_int k" by simp
  with lo have pos: "0 < \<bar>x\<bar>" by linarith
  then have x0: "x \<noteq> 0" by simp
  have fl: "\<lfloor>log 2 \<bar>x\<bar>\<rfloor> = k"
    using pos lo hi by (simp add: floor_log_eq_powr_iff)
  have "x / ?u - of_int m = (x - of_int m * ?u) / ?u" using u by (simp add: field_simps)
  then have "\<bar>x / ?u - of_int m\<bar> = \<bar>x - of_int m * ?u\<bar> / ?u"
    using u by (simp add: abs_divide)
  also have "\<dots> < (?u / 2) / ?u" using near u by (simp add: divide_strict_right_mono)
  also have "\<dots> = 1 / 2" using u by simp
  finally have "rne (x / ?u) = m" by (rule rne_near)
  then show ?thesis
    using x0 emin by (simp add: round_to_def fl Let_def max_def)
qed

lemma to_f64_eval:
  fixes k m :: int
  assumes "2 powr of_int k \<le> \<bar>x\<bar>" "\<bar>x\<bar> < 2 powr (of_int k + 1)" "- 1022 \<le> k"
    "\<bar>x - of_int m * 2 powr of_int (k - 52)\<bar> < 2 powr of_int (k - 52) / 2"
  shows "to_f64 x = of_int m * 2 powr of_int (k - 52)"
  using round_to_eval [of k x "- 1022" m 53] assms by (simp add: to_f64_def)

lemma to_f32_eval:
  fixes k m :: int
  assumes "2 powr of_int k \<le> \<bar>x\<bar>" "\<bar>x\<bar> < 2 powr (of_int k + 1)" "- 126 \<le> k"
    "\<bar>x - of_int m * 2 powr of_int (k - 23)\<bar> < 2 powr of_int (k - 23) / 2"
  shows "to_f32 x = of_int m * 2 powr of_int (k - 23)"
  using round_to_eval [of k x "- 126" m 24] assms by (simp add: to_f32_def)

lemma double_098: "to_f64 (98 / 100) = 8827055269646172 / 2 ^ 53"
proof -
  have "to_f64 (98 / 100) = of_int (8827055269646172) * 2 powr of_int (- 1 - 52)"
    by (rule to_f64_eval) (simp_all add: powr_neg_numeral)
  then show ?thesis by (simp add: powr_neg_numeral)
qed

lemma double_002: "to_f64 (2 / 100) = 5764607523034235 / 2 ^ 58"
proof -
  have "to_f64 (2 / 100) = of_int (5764607523034235) * 2 powr of_int (- 6 - 52)"
    by (rule to_f64_eval) (simp_all add: powr_neg_numeral)
  then show ?thesis by (simp add: powr_neg_numeral)
qed

lemma double_001: "to_f64 (1 / 100) = 5764607523034235 / 2 ^ 59"
proof -
  have "to_f64 (1 / 100) = of_int (5764607523034235) * 2 powr of_int (- 7 - 52)"
    by (rule to_f64_eval) (simp_all add: powr_neg_numeral)
  then show ?thesis by (simp add: powr_neg_numeral)
qed

lemma close_step_a: "to_f64 (8827055269646172 / 2 ^ 53 * 1) = 8827055269646172 / 2 ^ 53"
proof -
  have "to_f64 (8827055269646172 / 2 ^ 53 * 1) = of_int (8827055269646172) * 2 powr of_int (- 1 - 52)"
    by (rule to_f64_eval) (simp_all add: powr_neg_numeral)
  then show ?thesis by (simp add: powr_neg_numeral)
qed

lemma close_step_b: "to_f64 (5764607523034235 / 2 ^ 58 * (5764607523034235 / 2 ^ 59)) = 7378697629483821 / 2 ^ 65"
proof -
  have "to_f64 (5764607523034235 / 2 ^ 58 * (5764607523034235 / 2 ^ 59)) = of_int (7378697629483821) * 2 powr of_int (- 13 - 52)"
    by (rule to_f64_eval) (simp_all add: powr_neg_numeral)
  then show ?thesis by (simp add: powr_neg_numeral)
qed

lemma close_step_sum: "to_f64 (8827055269646172 / 2 ^ 53 + 7378697629483821 / 2 ^ 65) = 8828856709497120 / 2 ^ 53"
proof -
  have "to_f64 (8827055269646172 / 2 ^ 53 + 7378697629483821 / 2 ^ 65) = of_int (8828856709497120) * 2 powr of_int (- 1 - 52)"
    by (rule to_f64_eval) (simp_all add: powr_neg_numeral)
  then show ?thesis by (simp add: powr_neg_numeral)
qed

lemma hold_step_a: "to_f64 (8827055269646172 / 2 ^ 53 * (8828856709497120 / 2 ^ 53)) = 8652279575307177 / 2 ^ 53"
proof -
  have "to_f64 (8827055269646172 / 2 ^ 53 * (8828856709497120 / 2 ^ 53)) = of_int (8652279575307177) * 2 powr of_int (- 1 - 52)"
    by (rule to_f64_eval) (simp_all add: powr_neg_numeral)
  then show ?thesis by (simp add: powr_neg_numeral)
qed

lemma hold_step_b: "to_f64 (5764607523034235 / 2 ^ 58 * (8828856709497120 / 2 ^ 53)) = 5650468294078157 / 2 ^ 58"
proof -
  have "to_f64 (5764607523034235 / 2 ^ 58 * (8828856709497120 / 2 ^ 53)) = of_int (5650468294078157) * 2 powr of_int (- 6 - 52)"
    by (rule to_f64_eval) (simp_all add: powr_neg_numeral)
  then show ?thesis by (simp add: powr_neg_numeral)
qed

lemma hold_step_sum: "to_f64 (8652279575307177 / 2 ^ 53 + 5650468294078157 / 2 ^ 58) = 8828856709497119 / 2 ^ 53"
proof -
  have "to_f64 (8652279575307177 / 2 ^ 53 + 5650468294078157 / 2 ^ 58) = of_int (8828856709497119) * 2 powr of_int (- 1 - 52)"
    by (rule to_f64_eval) (simp_all add: powr_neg_numeral)
  then show ?thesis by (simp add: powr_neg_numeral)
qed

lemma double_floor_80: "to_f64 (1 / 10 ^ 4) = 7378697629483821 / 2 ^ 66"
proof -
  have "to_f64 (1 / 10 ^ 4) = of_int (7378697629483821) * 2 powr of_int (- 14 - 52)"
    by (rule to_f64_eval) (simp_all add: powr_neg_numeral)
  then show ?thesis by (simp add: powr_neg_numeral)
qed

lemma floor_step_a: "to_f64 (8827055269646172 / 2 ^ 53 * (7378697629483821 / 2 ^ 66)) = 7231123676894144 / 2 ^ 66"
proof -
  have "to_f64 (8827055269646172 / 2 ^ 53 * (7378697629483821 / 2 ^ 66)) = of_int (7231123676894144) * 2 powr of_int (- 14 - 52)"
    by (rule to_f64_eval) (simp_all add: powr_neg_numeral)
  then show ?thesis by (simp add: powr_neg_numeral)
qed

lemma floor_step_b: "to_f64 (5764607523034235 / 2 ^ 58 * (7378697629483821 / 2 ^ 66)) = 4722366482869646 / 2 ^ 71"
proof -
  have "to_f64 (5764607523034235 / 2 ^ 58 * (7378697629483821 / 2 ^ 66)) = of_int (4722366482869646) * 2 powr of_int (- 19 - 52)"
    by (rule to_f64_eval) (simp_all add: powr_neg_numeral)
  then show ?thesis by (simp add: powr_neg_numeral)
qed

lemma floor_step_sum: "to_f64 (7231123676894144 / 2 ^ 66 + 4722366482869646 / 2 ^ 71) = 7378697629483820 / 2 ^ 66"
proof -
  have "to_f64 (7231123676894144 / 2 ^ 66 + 4722366482869646 / 2 ^ 71) = of_int (7378697629483820) * 2 powr of_int (- 14 - 52)"
    by (rule to_f64_eval) (simp_all add: powr_neg_numeral)
  then show ?thesis by (simp add: powr_neg_numeral)
qed

lemma release_complement: "to_f64 (1 - 9005635640604698 / 2 ^ 53) = 6404563502260224 / 2 ^ 65"
proof -
  have "to_f64 (1 - 9005635640604698 / 2 ^ 53) = of_int (6404563502260224) * 2 powr of_int (- 13 - 52)"
    by (rule to_f64_eval) (simp_all add: powr_neg_numeral)
  then show ?thesis by (simp add: powr_neg_numeral)
qed

lemma stall_a: "to_f64 (9005635640604698 / 2 ^ 53 * (5764607394185329 / 2 ^ 59)) = 5763606681160469 / 2 ^ 59"
proof -
  have "to_f64 (9005635640604698 / 2 ^ 53 * (5764607394185329 / 2 ^ 59)) = of_int (5763606681160469) * 2 powr of_int (- 7 - 52)"
    by (rule to_f64_eval) (simp_all add: powr_neg_numeral)
  then show ?thesis by (simp add: powr_neg_numeral)
qed

lemma stall_b: "to_f64 (6404563502260224 / 2 ^ 65 * (10737418 / 2 ^ 30)) = 8197841099657055 / 2 ^ 72"
proof -
  have "to_f64 (6404563502260224 / 2 ^ 65 * (10737418 / 2 ^ 30)) = of_int (8197841099657055) * 2 powr of_int (- 20 - 52)"
    by (rule to_f64_eval) (simp_all add: powr_neg_numeral)
  then show ?thesis by (simp add: powr_neg_numeral)
qed

lemma stall_sum: "to_f64 (5763606681160469 / 2 ^ 59 + 8197841099657055 / 2 ^ 72) = 5764607394185329 / 2 ^ 59"
proof -
  have "to_f64 (5763606681160469 / 2 ^ 59 + 8197841099657055 / 2 ^ 72) = of_int (5764607394185329) * 2 powr of_int (- 7 - 52)"
    by (rule to_f64_eval) (simp_all add: powr_neg_numeral)
  then show ?thesis by (simp add: powr_neg_numeral)
qed

lemma release_single: "to_f32 (9005635640604698 / 2 ^ 53) = 16774304 / 2 ^ 24"
proof -
  have "to_f32 (9005635640604698 / 2 ^ 53) = of_int (16774304) * 2 powr of_int (- 1 - 23)"
    by (rule to_f32_eval) (simp_all add: powr_neg_numeral)
  then show ?thesis by (simp add: powr_neg_numeral)
qed

lemma release_complement_single: "to_f32 (6404563502260224 / 2 ^ 65) = 11929429 / 2 ^ 36"
proof -
  have "to_f32 (6404563502260224 / 2 ^ 65) = of_int (11929429) * 2 powr of_int (- 13 - 23)"
    by (rule to_f32_eval) (simp_all add: powr_neg_numeral)
  then show ?thesis by (simp add: powr_neg_numeral)
qed

lemma stall_single_a: "to_f32 (16774304 / 2 ^ 24 * (10742142 / 2 ^ 30)) = 10740278 / 2 ^ 30"
proof -
  have "to_f32 (16774304 / 2 ^ 24 * (10742142 / 2 ^ 30)) = of_int (10740278) * 2 powr of_int (- 7 - 23)"
    by (rule to_f32_eval) (simp_all add: powr_neg_numeral)
  then show ?thesis by (simp add: powr_neg_numeral)
qed

lemma stall_single_b: "to_f32 (11929429 / 2 ^ 36 * (10737418 / 2 ^ 30)) = 15269669 / 2 ^ 43"
proof -
  have "to_f32 (11929429 / 2 ^ 36 * (10737418 / 2 ^ 30)) = of_int (15269669) * 2 powr of_int (- 20 - 23)"
    by (rule to_f32_eval) (simp_all add: powr_neg_numeral)
  then show ?thesis by (simp add: powr_neg_numeral)
qed

lemma stall_single_sum: "to_f32 (10740278 / 2 ^ 30 + 15269669 / 2 ^ 43) = 10742142 / 2 ^ 30"
proof -
  have "to_f32 (10740278 / 2 ^ 30 + 15269669 / 2 ^ 43) = of_int (10742142) * 2 powr of_int (- 7 - 23)"
    by (rule to_f32_eval) (simp_all add: powr_neg_numeral)
  then show ?thesis by (simp add: powr_neg_numeral)
qed

subsection \<open>The three steps\<close>

text \<open>
  Claim C3, as stated, fails in the code's doubles. From the gain 1 of a fresh engine,
  one closing step toward the default floor gain 0.01 gives the double 0.9802
  (\<open>8828856709497120 / 2 ^ 53\<close>). At a next sample inside the dead zone (here at
  - 45 dB) the target is that gain, and the blend \<open>0.98 * g + 0.02 * g\<close> rounds to
  0.9801999999999998, the double below it. The block \<open>[0, 1]\<close> on a fresh engine with
  the gate enabled takes these two steps: its first sample leaves the envelope at 0,
  its second brings it to about - 43 dB.
\<close>

theorem gate_dead_zone_drifts_in_doubles:
  "gain_step_f64 1 (to_f64 (1 / 100)) = 8828856709497120 / 2 ^ 53
   \<and> gate_target ''Gate'' (- 42) (- 48) (to_f64 (1 / 100)) 4 (8828856709497120 / 2 ^ 53) (- 45) = 8828856709497120 / 2 ^ 53
   \<and> gain_step_f64 (8828856709497120 / 2 ^ 53) (8828856709497120 / 2 ^ 53) = 8828856709497119 / 2 ^ 53
   \<and> 8828856709497119 / 2 ^ 53 \<noteq> (8828856709497120 / 2 ^ 53 :: real)"
proof -
  have c: "\<not> (1::real) < 5764607523034235 / 2 ^ 59" by simp
  have 1: "gain_step_f64 1 (to_f64 (1 / 100)) = 8828856709497120 / 2 ^ 53"
    unfolding gain_step_f64_def
    by (simp only: double_001 double_098 double_002 c if_False close_step_a close_step_b
        close_step_sum)
  have 2: "gate_target ''Gate'' (- 42) (- 48) (to_f64 (1 / 100)) 4 (8828856709497120 / 2 ^ 53) (- 45) = 8828856709497120 / 2 ^ 53"
    by (simp add: gate_target_def)
  have 3: "gain_step_f64 (8828856709497120 / 2 ^ 53) (8828856709497120 / 2 ^ 53) = 8828856709497119 / 2 ^ 53"
    unfolding gain_step_f64_def
    by (simp only: double_098 double_002 less_irrefl if_False hold_step_a hold_step_b
        hold_step_sum)
  have 4: "8828856709497119 / 2 ^ 53 \<noteq> (8828856709497120 / 2 ^ 53 :: real)" by simp
  from 1 2 3 4 show ?thesis by (intro conjI)
qed

text \<open>
  Claim C10, as stated, fails in the code's doubles. With the floor at - 80 dB the floor
  gain is the double nearest to \<open>10 ^ - 4\<close>. A smoothed gain equal to it is in the
  interval of the claim; at a silent sample (envelope at - 160 dB, below the close
  threshold) the target is the floor gain, and the blend rounds to
  9.999999999999999e-05, the double below the floor gain.
\<close>

theorem gate_gain_falls_below_floor_in_doubles:
  "to_f64 (1 / 10 ^ 4) = 7378697629483821 / 2 ^ 66
   \<and> 7378697629483821 / 2 ^ 66 \<le> (1::real)
   \<and> gate_target ''Gate'' (- 42) (- 48) (7378697629483821 / 2 ^ 66) 4 (7378697629483821 / 2 ^ 66) (- 160) = 7378697629483821 / 2 ^ 66
   \<and> gain_step_f64 (7378697629483821 / 2 ^ 66) (7378697629483821 / 2 ^ 66) = 7378697629483820 / 2 ^ 66
   \<and> 7378697629483820 / 2 ^ 66 < (7378697629483821 / 2 ^ 66 :: real)"
proof -
  have 1: "to_f64 (1 / 10 ^ 4) = 7378697629483821 / 2 ^ 66" by (rule double_floor_80)
  have 2: "7378697629483821 / 2 ^ 66 \<le> (1::real)" by simp
  have 3: "gate_target ''Gate'' (- 42) (- 48) (7378697629483821 / 2 ^ 66) 4 (7378697629483821 / 2 ^ 66) (- 160) = 7378697629483821 / 2 ^ 66"
    by (simp add: gate_target_def)
  have 4: "gain_step_f64 (7378697629483821 / 2 ^ 66) (7378697629483821 / 2 ^ 66) = 7378697629483820 / 2 ^ 66"
    unfolding gain_step_f64_def
    by (simp only: double_098 double_002 less_irrefl if_False floor_step_a floor_step_b
        floor_step_sum)
  have 5: "7378697629483820 / 2 ^ 66 < (7378697629483821 / 2 ^ 66 :: real)" by simp
  from 1 2 3 4 5 show ?thesis by (intro conjI)
qed

text \<open>
  Claim C7, as stated, fails in the code's floating point. The coefficients are the
  doubles that \<open>math.exp\<close> returns for \<open>- 1/144\<close> and \<open>- 1/5760\<close> (the nearest to the
  exact values), the sample is the \<open>float32\<close> nearest to 0.01. In doubles an envelope
  of 0.009999999776482778 and in single precision an envelope of 0.010004399344325066,
  both above the amplitude, are returned unchanged by the update: the distance to the
  amplitude does not shrink and the envelope stays where it is.
\<close>

theorem envelope_stalls_short_of_amplitude:
  "env_step_f64 (8944865945521248 / 2 ^ 53) (9005635640604698 / 2 ^ 53) (5764607394185329 / 2 ^ 59) (10737418 / 2 ^ 30) = 5764607394185329 / 2 ^ 59
   \<and> 5764607394185329 / 2 ^ 59 \<noteq> \<bar>10737418 / 2 ^ 30 :: real\<bar>
   \<and> env_step_f32 (8944865945521248 / 2 ^ 53) (9005635640604698 / 2 ^ 53) (10742142 / 2 ^ 30) (10737418 / 2 ^ 30) = 10742142 / 2 ^ 30
   \<and> 10742142 / 2 ^ 30 \<noteq> \<bar>10737418 / 2 ^ 30 :: real\<bar>"
proof -
  have a: "\<bar>10737418 / 2 ^ 30 :: real\<bar> = 10737418 / 2 ^ 30" by simp
  have c: "\<not> (5764607394185329 / 2 ^ 59 :: real) < 10737418 / 2 ^ 30" by simp
  have d: "\<not> (10742142 / 2 ^ 30 :: real) < 10737418 / 2 ^ 30" by simp
  have 1: "env_step_f64 (8944865945521248 / 2 ^ 53) (9005635640604698 / 2 ^ 53) (5764607394185329 / 2 ^ 59) (10737418 / 2 ^ 30) = 5764607394185329 / 2 ^ 59"
    unfolding env_step_f64_def
    by (simp only: Let_def a c if_False release_complement stall_a stall_b stall_sum)
  have 2: "5764607394185329 / 2 ^ 59 \<noteq> \<bar>10737418 / 2 ^ 30 :: real\<bar>" by simp
  have 3: "env_step_f32 (8944865945521248 / 2 ^ 53) (9005635640604698 / 2 ^ 53) (10742142 / 2 ^ 30) (10737418 / 2 ^ 30) = 10742142 / 2 ^ 30"
    unfolding env_step_f32_def
    by (simp only: Let_def a d if_False release_complement release_single
        release_complement_single stall_single_a stall_single_b stall_single_sum)
  have 4: "10742142 / 2 ^ 30 \<noteq> \<bar>10737418 / 2 ^ 30 :: real\<bar>" by simp
  from 1 2 3 4 show ?thesis by (intro conjI)
qed

end
